theory Spec2Isabelle
  imports Complex_Main "HOL-Library.Word" "HOL-Library.AList"
begin

unbundle bit_operations_syntax

section \<open>Python values\<close>

text \<open>
  The backend is Python. A \<open>str\<close> is modelled as a \<open>string\<close> whose characters are the
  code points below 256 (ASCII and Latin-1); \<open>isspace\<close>, \<open>lower\<close> and the UTF-8 encoding
  below follow Python on that range. A \<open>float\<close> is modelled by the real number its decimal
  literal denotes, an \<open>int\<close> by \<open>int\<close>. A \<open>dict\<close> is an association list in insertion
  order; \<open>AList.update\<close> is Python's item assignment (an existing key keeps its place).
\<close>

datatype pyval =
    PNone
  | PBool bool
  | PInt int
  | PFloat real
  | PStr string
  | PList "pyval list"
  | PDict "(string \<times> pyval) list"

type_synonym pydict = "(string \<times> pyval) list"

datatype py_error = TypeError | KeyError | IndexError

text \<open>Truth value testing, as \<open>and\<close>, \<open>or\<close>, \<open>if\<close> apply it.\<close>

fun truthy :: "pyval \<Rightarrow> bool" where
  "truthy PNone = False"
| "truthy (PBool b) = b"
| "truthy (PInt i) = (i \<noteq> 0)"
| "truthy (PFloat x) = (x \<noteq> 0)"
| "truthy (PStr s) = (s \<noteq> [])"
| "truthy (PList xs) = (xs \<noteq> [])"
| "truthy (PDict d) = (d \<noteq> [])"

text \<open>\<open>d.get(k, default)\<close>\<close>

definition dict_get :: "pydict \<Rightarrow> string \<Rightarrow> pyval \<Rightarrow> pyval" where
  "dict_get d k dflt = (case map_of d k of Some v \<Rightarrow> v | None \<Rightarrow> dflt)"

text \<open>\<open>v >= r\<close> for a float literal \<open>r\<close>: numbers compare (a bool is an int), anything
  else raises TypeError.\<close>

fun py_ge_float :: "pyval \<Rightarrow> real \<Rightarrow> py_error + pyval" where
  "py_ge_float (PBool b) r = Inr (PBool ((if b then 1 else 0) \<ge> r))"
| "py_ge_float (PInt i) r = Inr (PBool (real_of_int i \<ge> r))"
| "py_ge_float (PFloat x) r = Inr (PBool (x \<ge> r))"
| "py_ge_float v r = Inl TypeError"

subsection \<open>Strings\<close>

definition isspace :: "char \<Rightarrow> bool" where
  "isspace c = (let n = (of_char c :: nat) in
     (9 \<le> n \<and> n \<le> 13) \<or> (28 \<le> n \<and> n \<le> 32) \<or> n = 133 \<or> n = 160)"

definition lower_char :: "char \<Rightarrow> char" where
  "lower_char c = (let n = (of_char c :: nat) in
     if (65 \<le> n \<and> n \<le> 90) \<or> (192 \<le> n \<and> n \<le> 222 \<and> n \<noteq> 215)
     then char_of (n + 32) else c)"

definition lower :: "string \<Rightarrow> string" where
  "lower s = map lower_char s"

definition lstrip :: "string \<Rightarrow> string" where
  "lstrip s = dropWhile isspace s"

definition rstrip :: "string \<Rightarrow> string" where
  "rstrip s = rev (dropWhile isspace (rev s))"

definition strip :: "string \<Rightarrow> string" where
  "strip s = rstrip (lstrip s)"

text \<open>\<open>s.split()\<close>: the maximal runs of non-whitespace characters. The first argument
  is the word being read.\<close>

fun split_from :: "string \<Rightarrow> string \<Rightarrow> string list" where
  "split_from w [] = (if w = [] then [] else [w])"
| "split_from w (c # cs) =
     (if isspace c then (if w = [] then split_from [] cs else w # split_from [] cs)
      else split_from (w @ [c]) cs)"

definition split :: "string \<Rightarrow> string list" where
  "split s = split_from [] s"

definition word_count_of :: "string \<Rightarrow> nat" where
  "word_count_of s = length (split s)"

text \<open>\<open>sep.join(xs)\<close>\<close>

fun join :: "string \<Rightarrow> string list \<Rightarrow> string" where
  "join sep [] = []"
| "join sep [x] = x"
| "join sep (x # y # ys) = x @ sep @ join sep (y # ys)"

fun startswith :: "string \<Rightarrow> string \<Rightarrow> bool" where
  "startswith s [] = True"
| "startswith [] (p # ps) = False"
| "startswith (c # cs) (p # ps) = (c = p \<and> startswith cs ps)"

text \<open>\<open>sub in s\<close>\<close>

fun contains :: "string \<Rightarrow> string \<Rightarrow> bool" where
  "contains [] sub = (sub = [])"
| "contains (c # cs) sub = (startswith (c # cs) sub \<or> contains cs sub)"

section \<open>Query classifier: \<open>should_store_question\<close>\<close>

text \<open>
  \<open>classify_query\<close> returns a dict with the keys \<open>is_question\<close>, \<open>is_relevant\<close>,
  \<open>question_type\<close>, \<open>confidence\<close>, \<open>reasoning\<close> (its docstring); the record is that
  ClassificationResult and \<open>classification_dict\<close> the dict that carries it.
\<close>

record classification_result =
  is_question :: bool
  is_relevant :: bool
  question_type :: string
  confidence :: real
  reasoning :: string

definition classification_dict :: "classification_result \<Rightarrow> pydict" where
  "classification_dict c =
     [(''is_question'', PBool (is_question c)),
      (''is_relevant'', PBool (is_relevant c)),
      (''question_type'', PStr (question_type c)),
      (''confidence'', PFloat (confidence c)),
      (''reasoning'', PStr (reasoning c))]"

text \<open>
  \<open>return (classification.get("is_question", False) and
            classification.get("is_relevant", False) and
            classification.get("confidence", 0.0) >= 0.6)\<close>
  Python's \<open>and\<close> returns its first falsy operand, else the last one; the comparison is
  only evaluated when the first two operands are truthy.
\<close>

definition should_store_question :: "pydict \<Rightarrow> py_error + pyval" where
  "should_store_question classification =
     (let a = dict_get classification ''is_question'' (PBool False) in
      if \<not> truthy a then Inr a
      else
        let b = dict_get classification ''is_relevant'' (PBool False) in
        if \<not> truthy b then Inr b
        else py_ge_float (dict_get classification ''confidence'' (PFloat 0.0)) 0.6)"

section \<open>Rate limiter: \<open>execute_with_retry\<close>\<close>

text \<open>
  The three \<open>except\<close> clauses of \<open>execute_with_retry\<close> sort the errors of the wrapped call:
  \<open>litellm.RateLimitError\<close>, \<open>litellm.APIError\<close>, and every other exception. Each carries
  \<open>str(e)\<close>.
\<close>

datatype exn = RateLimitError string | APIError string | OtherError string

datatype 'a outcome = Returns 'a | Raises exn

text \<open>
  \<open>max_retries\<close> is whatever int the caller passes (the constructor keeps every truthy
  value, a negative one too). \<open>max_concurrent\<close> is the initial value of an
  \<open>asyncio.Semaphore\<close>, whose constructor raises \<open>ValueError\<close> on a negative value: a
  limiter that exists has a natural number there.
\<close>

record rate_limiter =
  max_concurrent :: nat
  max_retries :: int
  retry_delay :: real
  retry_backoff :: real
  total_requests :: nat
  successful_requests :: nat
  failed_requests :: nat
  retried_requests :: nat

text \<open>The defaults of \<open>config.py\<close>: \<open>LLM_MAX_CONCURRENT_REQUESTS\<close>, \<open>LLM_MAX_RETRIES\<close>,
  \<open>LLM_RETRY_DELAY\<close>, \<open>LLM_RETRY_BACKOFF\<close>.\<close>

definition LLM_MAX_CONCURRENT_REQUESTS :: nat where "LLM_MAX_CONCURRENT_REQUESTS = 5"
definition LLM_MAX_RETRIES :: int where "LLM_MAX_RETRIES = 3"
definition LLM_RETRY_DELAY :: real where "LLM_RETRY_DELAY = 1.0"
definition LLM_RETRY_BACKOFF :: real where "LLM_RETRY_BACKOFF = 2.0"

text \<open>\<open>x or default\<close> for an optional numeric argument: \<open>None\<close> and zero are falsy.\<close>

definition or_default :: "'a::zero option \<Rightarrow> 'a \<Rightarrow> 'a" where
  "or_default x d = (case x of None \<Rightarrow> d | Some v \<Rightarrow> if v = 0 then d else v)"

definition RateLimiter ::
  "nat option \<Rightarrow> int option \<Rightarrow> real option \<Rightarrow> real option \<Rightarrow> rate_limiter" where
  "RateLimiter mc mr rd rb =
     \<lparr> max_concurrent = or_default mc LLM_MAX_CONCURRENT_REQUESTS,
       max_retries = or_default mr LLM_MAX_RETRIES,
       retry_delay = or_default rd LLM_RETRY_DELAY,
       retry_backoff = or_default rb LLM_RETRY_BACKOFF,
       total_requests = 0,
       successful_requests = 0,
       failed_requests = 0,
       retried_requests = 0 \<rparr>"

definition retryable_patterns :: "string list" where
  "retryable_patterns =
     [''timeout'', ''connection'', ''503'', ''502'', ''500'', ''429'', ''server error'']"

definition is_retryable_error :: "string \<Rightarrow> bool" where
  "is_retryable_error error_str =
     list_ex (\<lambda>pattern. contains (lower error_str) pattern) retryable_patterns"

text \<open>
  One call of \<open>execute_with_retry\<close> runs in a state that holds the limiter, the state of
  the wrapped callable (\<open>func\<close> is any callable, so it has a state of its own and an
  outcome that depends on it), and two observations of the call's effects: how often
  \<open>func\<close> was awaited, and the arguments of \<open>asyncio.sleep\<close> in order.
\<close>

record 's run =
  limiter :: rate_limiter
  func_state :: 's
  invocations :: nat
  sleeps :: "real list"

definition count_failed :: "'s run \<Rightarrow> 's run" where
  "count_failed r =
     r\<lparr>limiter := (limiter r)\<lparr>failed_requests := failed_requests (limiter r) + 1\<rparr>\<rparr>"

definition count_success :: "nat \<Rightarrow> 's run \<Rightarrow> 's run" where
  "count_success attempt r =
     r\<lparr>limiter := (limiter r)
        \<lparr>successful_requests := successful_requests (limiter r) + 1,
         retried_requests :=
           (if attempt > 0 then retried_requests (limiter r) + 1
            else retried_requests (limiter r))\<rparr>\<rparr>"

definition backoff_delay :: "rate_limiter \<Rightarrow> nat \<Rightarrow> real" where
  "backoff_delay rl attempt = retry_delay rl * retry_backoff rl ^ attempt"

definition sleep :: "real \<Rightarrow> 's run \<Rightarrow> 's run" where
  "sleep delay r = r\<lparr>sleeps := sleeps r @ [delay]\<rparr>"

text \<open>The body of \<open>for attempt in range(self.max_retries + 1)\<close>, over the attempts left;
  the empty list is the code after the loop. The attempts are the numbers of a \<open>range\<close>,
  so they are natural numbers; \<open>max_retries\<close> is an int and \<open>range(n)\<close> is empty for
  \<open>n \<le> 0\<close>.\<close>

fun attempt_loop ::
  "('s \<Rightarrow> 'a outcome \<times> 's) \<Rightarrow> nat list \<Rightarrow> exn option \<Rightarrow> 's run \<Rightarrow> (exn + 'a) \<times> 's run" where
  "attempt_loop func [] last_exception r =
     (case last_exception of
        Some e \<Rightarrow> (Inl e, count_failed r)
      | None \<Rightarrow> (Inl (OtherError ''Request failed after all retries''), count_failed r))"
| "attempt_loop func (attempt # rest) last_exception r =
     (case func (func_state r) of
        (res, s') \<Rightarrow>
          let r1 = r\<lparr>func_state := s', invocations := invocations r + 1\<rparr> in
          (case res of
             Returns v \<Rightarrow> (Inr v, count_success attempt r1)
           | Raises (RateLimitError m) \<Rightarrow>
               if int attempt < max_retries (limiter r1)
               then attempt_loop func rest (Some (RateLimitError m))
                      (sleep (backoff_delay (limiter r1) attempt) r1)
               else (Inl (RateLimitError m), count_failed r1)
           | Raises (APIError m) \<Rightarrow>
               if int attempt < max_retries (limiter r1) \<and> is_retryable_error m
               then attempt_loop func rest (Some (APIError m))
                      (sleep (backoff_delay (limiter r1) attempt) r1)
               else (Inl (APIError m), count_failed r1)
           | Raises (OtherError m) \<Rightarrow> (Inl (OtherError m), count_failed r1)))"

definition execute_with_retry ::
  "('s \<Rightarrow> 'a outcome \<times> 's) \<Rightarrow> 's run \<Rightarrow> (exn + 'a) \<times> 's run" where
  "execute_with_retry func r =
     attempt_loop func [0..<nat (max_retries (limiter r) + 1)] None
       (r\<lparr>limiter := (limiter r)\<lparr>total_requests := total_requests (limiter r) + 1\<rparr>\<rparr>)"

text \<open>A fresh call: nothing awaited, nothing slept.\<close>

definition start_run :: "rate_limiter \<Rightarrow> 's \<Rightarrow> 's run" where
  "start_run rl s = \<lparr> limiter = rl, func_state = s, invocations = 0, sleeps = [] \<rparr>"

text \<open>The errors the loop retries while attempts are left: a rate-limit error, and an
  API error whose text matches a retryable pattern.\<close>

fun retryable :: "exn \<Rightarrow> bool" where
  "retryable (RateLimitError m) = True"
| "retryable (APIError m) = is_retryable_error m"
| "retryable (OtherError m) = False"

section \<open>Answer cache\<close>

subsection \<open>\<open>hashlib.sha256(cache_string.encode()).hexdigest()\<close>\<close>

text \<open>
  \<open>str.encode()\<close> is UTF-8: a code point below 128 is one byte, one from 128 to 255 two.
  SHA-256 is the function of FIPS 180-4 (the library's, not this repository's code); the
  digest is printed as 64 lowercase hexadecimal digits.
\<close>

type_synonym byte = "8 word"
type_synonym w32 = "32 word"

definition utf8_char :: "char \<Rightarrow> byte list" where
  "utf8_char c = (let n = (of_char c :: nat) in
     if n < 128 then [of_nat n] else [of_nat (192 + n div 64), of_nat (128 + n mod 64)])"

definition encode :: "string \<Rightarrow> byte list" where
  "encode s = concat (map utf8_char s)"

definition rotr :: "nat \<Rightarrow> w32 \<Rightarrow> w32" where
  "rotr n x = or (drop_bit n x) (push_bit (32 - n) x)"

definition Ch :: "w32 \<Rightarrow> w32 \<Rightarrow> w32 \<Rightarrow> w32" where
  "Ch x y z = xor (and x y) (and (not x) z)"

definition Maj :: "w32 \<Rightarrow> w32 \<Rightarrow> w32 \<Rightarrow> w32" where
  "Maj x y z = xor (xor (and x y) (and x z)) (and y z)"

definition Sigma0 :: "w32 \<Rightarrow> w32" where
  "Sigma0 x = xor (xor (rotr 2 x) (rotr 13 x)) (rotr 22 x)"

definition Sigma1 :: "w32 \<Rightarrow> w32" where
  "Sigma1 x = xor (xor (rotr 6 x) (rotr 11 x)) (rotr 25 x)"

definition sigma0 :: "w32 \<Rightarrow> w32" where
  "sigma0 x = xor (xor (rotr 7 x) (rotr 18 x)) (drop_bit 3 x)"

definition sigma1 :: "w32 \<Rightarrow> w32" where
  "sigma1 x = xor (xor (rotr 17 x) (rotr 19 x)) (drop_bit 10 x)"

definition K256 :: "w32 list" where
  "K256 =
    [1116352408, 1899447441, 3049323471, 3921009573, 961987163, 1508970993,
     2453635748, 2870763221, 3624381080, 310598401, 607225278, 1426881987,
     1925078388, 2162078206, 2614888103, 3248222580, 3835390401, 4022224774,
     264347078, 604807628, 770255983, 1249150122, 1555081692, 1996064986,
     2554220882, 2821834349, 2952996808, 3210313671, 3336571891, 3584528711,
     113926993, 338241895, 666307205, 773529912, 1294757372, 1396182291,
     1695183700, 1986661051, 2177026350, 2456956037, 2730485921, 2820302411,
     3259730800, 3345764771, 3516065817, 3600352804, 4094571909, 275423344,
     430227734, 506948616, 659060556, 883997877, 958139571, 1322822218,
     1537002063, 1747873779, 1955562222, 2024104815, 2227730452, 2361852424,
     2428436474, 2756734187, 3204031479, 3329325298]"

type_synonym hash_state = "w32 \<times> w32 \<times> w32 \<times> w32 \<times> w32 \<times> w32 \<times> w32 \<times> w32"

definition H0 :: hash_state where
  "H0 = (0x6a09e667, 0xbb67ae85, 0x3c6ef372, 0xa54ff53a,
         0x510e527f, 0x9b05688c, 0x1f83d9ab, 0x5be0cd19)"

text \<open>Padding: the byte 0x80, zero bytes up to 56 modulo 64, the bit length in 8 bytes.\<close>

definition pad :: "byte list \<Rightarrow> byte list" where
  "pad m = (let l = length m in
     m @ [0x80] @ replicate ((119 - l mod 64) mod 64) 0 @
     map (\<lambda>i. of_nat ((8 * l) div 2 ^ (8 * (7 - i)) mod 256)) [0..<8])"

definition be32 :: "byte list \<Rightarrow> w32" where
  "be32 bs = foldl (\<lambda>acc b. push_bit 8 acc + ucast b) 0 bs"

text \<open>The message schedule, newest word first.\<close>

fun schedule :: "nat \<Rightarrow> w32 list \<Rightarrow> w32 list" where
  "schedule 0 ws = ws"
| "schedule (Suc n) ws =
     schedule n ((sigma1 (ws ! 1) + ws ! 6 + sigma0 (ws ! 14) + ws ! 15) # ws)"

definition round256 :: "hash_state \<Rightarrow> w32 \<times> w32 \<Rightarrow> hash_state" where
  "round256 st kw = (case st of (a, b, c, d, e, f, g, h) \<Rightarrow>
     let t1 = h + Sigma1 e + Ch e f g + fst kw + snd kw;
         t2 = Sigma0 a + Maj a b c
     in (t1 + t2, a, b, c, d + t1, e, f, g))"

definition add_state :: "hash_state \<Rightarrow> hash_state \<Rightarrow> hash_state" where
  "add_state s t = (case s of (a, b, c, d, e, f, g, h) \<Rightarrow>
     case t of (a', b', c', d', e', f', g', h') \<Rightarrow>
       (a + a', b + b', c + c', d + d', e + e', f + f', g + g', h + h'))"

definition compress :: "hash_state \<Rightarrow> byte list \<Rightarrow> hash_state" where
  "compress st block =
     (let w16 = map (\<lambda>i. be32 (take 4 (drop (4 * i) block))) [0..<16];
          w = rev (schedule 48 (rev w16))
      in add_state st (foldl round256 st (zip K256 w)))"

fun blocks :: "nat \<Rightarrow> byte list \<Rightarrow> byte list list" where
  "blocks 0 bs = []"
| "blocks (Suc n) bs = take 64 bs # blocks n (drop 64 bs)"

definition sha256 :: "byte list \<Rightarrow> hash_state" where
  "sha256 m = (let p = pad m in foldl compress H0 (blocks (length p div 64) p))"

definition hexdigits :: string where
  "hexdigits = ''0123456789abcdef''"

definition hex_digit :: "nat \<Rightarrow> char" where
  "hex_digit n = hexdigits ! (n mod 16)"

definition hex_word :: "w32 \<Rightarrow> string" where
  "hex_word w = map (\<lambda>i. hex_digit (unat (drop_bit (28 - 4 * i) w))) [0..<8]"

fun state_words :: "hash_state \<Rightarrow> w32 list" where
  "state_words (a, b, c, d, e, f, g, h) = [a, b, c, d, e, f, g, h]"

definition hexdigest :: "hash_state \<Rightarrow> string" where
  "hexdigest st = concat (map hex_word (state_words st))"

definition sha256_hexdigest :: "string \<Rightarrow> string" where
  "sha256_hexdigest s = hexdigest (sha256 (encode s))"

subsection \<open>\<open>json.dumps\<close> of the sorted keyword arguments\<close>

text \<open>
  The callers pass \<open>top_k\<close> (an int) and \<open>model\<close> (a str) as extra parameters.
  \<open>json.dumps\<close> writes an int in decimal and a str in double quotes, escaping the quote,
  the backslash and every character outside the printable ASCII range
  (\<open>ensure_ascii=True\<close>); a list of pairs becomes a list of two-element lists,
  separated by a comma and a space.
\<close>

datatype param = IntParam int | StrParam string

definition digit_char :: "nat \<Rightarrow> char" where
  "digit_char n = char_of (48 + n mod 10)"

fun dec_nat :: "nat \<Rightarrow> string" where
  "dec_nat n = (if n < 10 then [digit_char n] else dec_nat (n div 10) @ [digit_char n])"

definition str_int :: "int \<Rightarrow> string" where
  "str_int i = (if i < 0 then CHR ''-'' # dec_nat (nat (- i)) else dec_nat (nat i))"

definition json_escape_char :: "char \<Rightarrow> string" where
  "json_escape_char c = (let n = (of_char c :: nat) in
     if n = 34 then [CHR 0x5C, CHR 0x22]
     else if n = 92 then [CHR 0x5C, CHR 0x5C]
     else if n = 10 then [CHR 0x5C, CHR ''n'']
     else if n = 13 then [CHR 0x5C, CHR ''r'']
     else if n = 9 then [CHR 0x5C, CHR ''t'']
     else if n = 8 then [CHR 0x5C, CHR ''b'']
     else if n = 12 then [CHR 0x5C, CHR ''f'']
     else if 32 \<le> n \<and> n \<le> 126 then [c]
     else [CHR 0x5C, CHR ''u'', CHR ''0'', CHR ''0'', hex_digit (n div 16), hex_digit n])"

definition json_str :: "string \<Rightarrow> string" where
  "json_str s = CHR 0x22 # concat (map json_escape_char s) @ [CHR 0x22]"

fun json_param :: "param \<Rightarrow> string" where
  "json_param (IntParam i) = str_int i"
| "json_param (StrParam s) = json_str s"

definition json_pair :: "string \<times> param \<Rightarrow> string" where
  "json_pair p = ''['' @ json_str (fst p) @ '', '' @ json_param (snd p) @ '']''"

definition json_dumps_pairs :: "(string \<times> param) list \<Rightarrow> string" where
  "json_dumps_pairs ps = ''['' @ join '', '' (map json_pair ps) @ '']''"

text \<open>
  \<open>sorted(kwargs.items())\<close>: the items in the order of their keys, strings compared code
  point by code point. \<open>kwargs\<close> is a dict, so its keys are distinct and the values are
  never compared.
\<close>

fun str_less :: "string \<Rightarrow> string \<Rightarrow> bool" where
  "str_less [] [] = False"
| "str_less [] (y # ys) = True"
| "str_less (x # xs) [] = False"
| "str_less (x # xs) (y # ys) =
     ((of_char x :: nat) < of_char y \<or> (x = y \<and> str_less xs ys))"

fun insert_item :: "string \<times> 'a \<Rightarrow> (string \<times> 'a) list \<Rightarrow> (string \<times> 'a) list" where
  "insert_item p [] = [p]"
| "insert_item p (q # qs) =
     (if str_less (fst q) (fst p) then q # insert_item p qs else p # q # qs)"

definition sorted_items :: "(string \<times> 'a) list \<Rightarrow> (string \<times> 'a) list" where
  "sorted_items kwargs = foldr insert_item kwargs []"

subsection \<open>\<open>_generate_cache_key\<close>\<close>

definition cache_string :: "string \<Rightarrow> string \<Rightarrow> (string \<times> param) list \<Rightarrow> string" where
  "cache_string question content_id kwargs =
     (let normalized_question = strip (lower question);
          s = content_id @ '':'' @ normalized_question
      in if kwargs \<noteq> [] then s @ '':'' @ json_dumps_pairs (sorted_items kwargs) else s)"

definition generate_cache_key :: "string \<Rightarrow> string \<Rightarrow> (string \<times> param) list \<Rightarrow> string" where
  "generate_cache_key question content_id kwargs =
     ''chembot:qa:'' @ sha256_hexdigest (cache_string question content_id kwargs)"

subsection \<open>The Redis server\<close>

text \<open>
  The manager talks to a Redis server through \<open>GET\<close>, \<open>SETEX\<close>, \<open>SCAN ... MATCH\<close> and
  \<open>DEL\<close>. The server is a keyspace (keys in the order they were set, with the value and
  the time to live given to \<open>SETEX\<close>) and a flag: when it does not answer, every command
  of the client raises. Expiry is not modelled: the properties below speak of the time
  before a key expires. The stored value is \<open>json.dumps\<close> of a dict and is read back with
  \<open>json.loads\<close>; the keyspace holds the dict itself.
\<close>

record redis =
  reachable :: bool
  keyspace :: "(string \<times> pydict \<times> nat) list"

text \<open>
  Redis glob-style patterns: \<open>*\<close> matches any run of characters, \<open>?\<close> one character,
  \<open>[...]\<close> one character of a class (\<open>^\<close> negates it, \<open>a-z\<close> is a range, a backslash
  quotes the next character), a backslash quotes the next pattern character, and every
  other character matches itself.
\<close>

fun class_match :: "string \<Rightarrow> char \<Rightarrow> bool \<Rightarrow> bool \<times> string" where
  "class_match [] c m = (m, [])"
| "class_match [x] c m = (if x = CHR '']'' then (m, []) else (m \<or> x = c, []))"
| "class_match (x # y # p) c m =
     (if x = CHR 0x5C then class_match p c (m \<or> y = c)
      else if x = CHR '']'' then (m, y # p)
      else if y = CHR ''-'' then
        (case p of
           [] \<Rightarrow> class_match (y # p) c (m \<or> x = c)
         | z # p' \<Rightarrow>
             let lo = min (of_char x :: nat) (of_char z); hi = max (of_char x :: nat) (of_char z)
             in class_match p' c (m \<or> (lo \<le> of_char c \<and> (of_char c :: nat) \<le> hi)))
      else class_match (y # p) c (m \<or> x = c))"

function glob_match :: "string \<Rightarrow> string \<Rightarrow> bool" where
  "glob_match [] s = (s = [])"
| "glob_match (x # p) s =
     (if x = CHR ''*'' then
        (glob_match p s \<or> (case s of [] \<Rightarrow> False | c # s' \<Rightarrow> glob_match (x # p) s'))
      else
        (case s of
           [] \<Rightarrow> False
         | c # s' \<Rightarrow>
             if x = CHR ''?'' then glob_match p s'
             else if x = CHR ''['' then
               (case p of
                  CHR ''^'' # q \<Rightarrow>
                    (case class_match q c False of (m, r) \<Rightarrow> \<not> m \<and> glob_match r s')
                | _ \<Rightarrow> (case class_match p c False of (m, r) \<Rightarrow> m \<and> glob_match r s'))
             else if x = CHR 0x5C then
               (case p of
                  [] \<Rightarrow> c = x \<and> glob_match [] s'
                | y # q \<Rightarrow> c = y \<and> glob_match q s')
             else c = x \<and> glob_match p s'))"
  by pat_completeness auto
termination
  by (relation "measures [\<lambda>(p, s). length s, \<lambda>(p, s). length p]") auto

definition redis_get :: "redis \<Rightarrow> string \<Rightarrow> exn + pydict option" where
  "redis_get srv key =
     (if \<not> reachable srv then Inl (OtherError ''ConnectionError'')
      else Inr (map_option fst (map_of (keyspace srv) key)))"

definition redis_setex :: "redis \<Rightarrow> string \<Rightarrow> nat \<Rightarrow> pydict \<Rightarrow> exn + redis" where
  "redis_setex srv key seconds v =
     (if \<not> reachable srv then Inl (OtherError ''ConnectionError'')
      else Inr (srv\<lparr>keyspace := AList.update key (v, seconds) (keyspace srv)\<rparr>))"

definition redis_delete :: "redis \<Rightarrow> string list \<Rightarrow> redis" where
  "redis_delete srv keys = srv\<lparr>keyspace := filter (\<lambda>e. fst e \<notin> set keys) (keyspace srv)\<rparr>"

text \<open>
  The loop \<open>cursor, keys = scan(cursor, match=pattern, count=100); delete(*keys); until
  cursor == 0\<close>. A full \<open>SCAN\<close> iteration visits every key that is present from its start
  to its end; the first argument is the part of the keyspace not yet visited, each call
  visits up to \<open>count\<close> keys of it and returns those that match.
\<close>

function scan_delete_loop :: "string list \<Rightarrow> string \<Rightarrow> redis \<Rightarrow> nat \<Rightarrow> redis \<times> nat" where
  "scan_delete_loop unvisited pattern srv deleted_count =
     (let keys = filter (glob_match pattern) (take 100 unvisited);
          srv1 = (if keys \<noteq> [] then redis_delete srv keys else srv);
          n = (if keys \<noteq> [] then deleted_count + length keys else deleted_count);
          rest = drop 100 unvisited
      in if rest = [] then (srv1, n) else scan_delete_loop rest pattern srv1 n)"
  by pat_completeness auto
termination
  by (relation "measure (\<lambda>(u, p, s, n). length u)") auto

subsection \<open>\<open>RedisCacheManager\<close>\<close>

record cache_manager =
  enabled :: bool
  ttl :: nat
  client :: "redis option"
  initialized :: bool

definition REDIS_CACHE_TTL :: nat where
  "REDIS_CACHE_TTL = 60 * 60 * 24 * 7"

text \<open>The constructor, for \<open>REDIS_CACHE_ENABLED\<close> and the server the client will reach.\<close>

definition RedisCacheManager :: "bool \<Rightarrow> redis \<Rightarrow> cache_manager" where
  "RedisCacheManager cache_enabled srv =
     \<lparr> enabled = cache_enabled, ttl = REDIS_CACHE_TTL,
       client = (if cache_enabled then Some srv else None), initialized = False \<rparr>"

definition ensure_initialized :: "cache_manager \<Rightarrow> cache_manager" where
  "ensure_initialized m =
     (if \<not> enabled m \<or> initialized m then m
      else case client m of
        None \<Rightarrow> m\<lparr>enabled := False, initialized := False\<rparr>
      | Some srv \<Rightarrow>
          if reachable srv then m\<lparr>initialized := True\<rparr>
          else m\<lparr>enabled := False, initialized := False\<rparr>)"

definition get_cached_answer ::
  "string \<Rightarrow> string \<Rightarrow> (string \<times> param) list \<Rightarrow> cache_manager \<Rightarrow> pydict option \<times> cache_manager" where
  "get_cached_answer question content_id kwargs m =
     (if \<not> enabled m \<or> client m = None then (None, m)
      else
        let m1 = ensure_initialized m in
        if \<not> enabled m1 then (None, m1)
        else case client m1 of
          None \<Rightarrow> (None, m1)
        | Some srv \<Rightarrow>
            (case redis_get srv (generate_cache_key question content_id kwargs) of
               Inl e \<Rightarrow> (None, m1)
             | Inr None \<Rightarrow> (None, m1)
             | Inr (Some cached_data) \<Rightarrow> (Some cached_data, m1)))"

definition cache_answer ::
  "string \<Rightarrow> string \<Rightarrow> pydict \<Rightarrow> (string \<times> param) list \<Rightarrow> cache_manager \<Rightarrow> cache_manager" where
  "cache_answer question content_id answer_data kwargs m =
     (if \<not> enabled m \<or> client m = None then m
      else
        let m1 = ensure_initialized m in
        if \<not> enabled m1 then m1
        else case client m1 of
          None \<Rightarrow> m1
        | Some srv \<Rightarrow>
            let cache_key = generate_cache_key question content_id kwargs;
                cache_data = AList.update ''cache_key'' (PStr cache_key)
                               (AList.update ''cached'' (PBool True) answer_data)
            in case redis_setex srv cache_key (ttl m1) cache_data of
                 Inl e \<Rightarrow> m1
               | Inr srv' \<Rightarrow> m1\<lparr>client := Some srv'\<rparr>)"

definition invalidate_content_cache :: "string \<Rightarrow> cache_manager \<Rightarrow> cache_manager" where
  "invalidate_content_cache content_id m =
     (if \<not> enabled m then m
      else case client m of
        None \<Rightarrow> m
      | Some srv \<Rightarrow>
          if \<not> reachable srv then m
          else
            let pattern = ''chembot:qa:*'' @ content_id @ ''*''
            in m\<lparr>client :=
                 Some (fst (scan_delete_loop (map fst (keyspace srv)) pattern srv 0))\<rparr>)"

section \<open>Chunking\<close>

text \<open>
  A \<open>Chunk\<close> holds its text, its metadata dict and the word count of the text.
  \<open>chunk_size\<close> and \<open>overlap\<close> are the ints the caller passes. The metadata argument of
  the chunkers is an optional dict; \<open>metadata or {}\<close> is \<open>or_empty\<close>.
\<close>

record chunk =
  chunk_text :: string
  chunk_metadata :: pydict
  word_count :: nat

definition or_empty :: "pydict option \<Rightarrow> pydict" where
  "or_empty metadata = (case metadata of None \<Rightarrow> [] | Some d \<Rightarrow> d)"

definition Chunk :: "string \<Rightarrow> pydict option \<Rightarrow> chunk" where
  "Chunk t metadata =
     \<lparr> chunk_text = t, chunk_metadata = or_empty metadata, word_count = length (split t) \<rparr>"

text \<open>\<open>{**d, k1: v1, k2: v2, ...}\<close> and \<open>d.update({k1: v1, ...})\<close>: the items are assigned
  from left to right.\<close>

definition dict_update :: "pydict \<Rightarrow> (string \<times> pyval) list \<Rightarrow> pydict" where
  "dict_update d items = foldl (\<lambda>acc kv. AList.update (fst kv) (snd kv) acc) d items"

subsection \<open>Splitting strings\<close>

text \<open>\<open>s.split(sep)\<close> for a separator: the pieces between the occurrences of \<open>sep\<close>, found
  from left to right. Python raises \<open>ValueError\<close> on an empty separator; the callers pass
  a literal that is not empty.\<close>

function str_split :: "string \<Rightarrow> string \<Rightarrow> string \<Rightarrow> string list" where
  "str_split sep cur [] = [cur]"
| "str_split sep cur (c # cs) =
     (if sep \<noteq> [] \<and> startswith (c # cs) sep
      then cur # str_split sep [] (drop (length sep) (c # cs))
      else str_split sep (cur @ [c]) cs)"
  by pat_completeness auto
termination
  by (relation "measure (\<lambda>(sep, cur, s). length s)") auto

text \<open>
  \<open>re.split(r'\n\s*\n', text)\<close>. A match starts at a newline and, \<open>\s*\<close> being greedy,
  ends at the last newline of the run of whitespace that follows it; there is a match
  when that run holds a newline. \<open>newline_gap\<close> takes the text after a newline and
  returns how many of its characters such a match consumes.
\<close>

definition newline_gap :: "string \<Rightarrow> nat option" where
  "newline_gap s =
     (let ws = takeWhile isspace s in
      if CHR 0x0A \<in> set ws
      then Some (length ws - length (takeWhile (\<lambda>c. c \<noteq> CHR 0x0A) (rev ws)))
      else None)"

function split_blank_lines :: "string \<Rightarrow> string \<Rightarrow> string list" where
  "split_blank_lines cur [] = [cur]"
| "split_blank_lines cur (c # cs) =
     (if c = CHR 0x0A then
        (case newline_gap cs of
           Some n \<Rightarrow> cur # split_blank_lines [] (drop n cs)
         | None \<Rightarrow> split_blank_lines (cur @ [c]) cs)
      else split_blank_lines (cur @ [c]) cs)"
  by pat_completeness auto
termination
  by (relation "measure (\<lambda>(cur, s). length s)") auto

definition split_into_paragraphs :: "string \<Rightarrow> string list" where
  "split_into_paragraphs t =
     map strip (filter (\<lambda>p. strip p \<noteq> []) (split_blank_lines [] t))"

text \<open>
  \<open>re.split(r'(?<=[.!?])\s+', text)\<close>: a match is a whole run of whitespace that comes
  right after a full stop, an exclamation mark or a question mark.
\<close>

definition sentence_end :: "char \<Rightarrow> bool" where
  "sentence_end c = (c = CHR ''.'' \<or> c = CHR ''!'' \<or> c = CHR ''?'')"

function split_sentences :: "string \<Rightarrow> string \<Rightarrow> string list" where
  "split_sentences cur [] = [cur]"
| "split_sentences cur (c # cs) =
     (if isspace c \<and> cur \<noteq> [] \<and> sentence_end (last cur)
      then cur # split_sentences [] (dropWhile isspace cs)
      else split_sentences (cur @ [c]) cs)"
  by pat_completeness auto
termination
  by (relation "measure (\<lambda>(cur, s). length s)")
     (auto simp add: le_imp_less_Suc length_dropWhile_le)

subsection \<open>\<open>HeuristicChunker\<close>\<close>

text \<open>
  The loop \<open>for s in reversed(current)\<close> that collects the overlap: the trailing items
  whose words fit into \<open>overlap\<close>, with their word count; it stops at the first item that
  does not fit. The first argument is the reversed list still to visit.
\<close>

fun overlap_tail :: "int \<Rightarrow> string list \<Rightarrow> string list \<Rightarrow> nat \<Rightarrow> string list \<times> nat" where
  "overlap_tail overlap [] acc words = (acc, words)"
| "overlap_tail overlap (s # ss) acc words =
     (if int (words + word_count_of s) \<le> overlap
      then overlap_tail overlap ss (s # acc) (words + word_count_of s)
      else (acc, words))"

definition get_overlap_text :: "int \<Rightarrow> string list \<Rightarrow> string" where
  "get_overlap_text overlap paragraphs =
     (if paragraphs = [] \<or> overlap \<le> 0 then []
      else
        let overlap_paras = fst (overlap_tail overlap (rev paragraphs) [] 0)
        in if overlap_paras \<noteq> [] then join [CHR 0x0A, CHR 0x0A] overlap_paras else [])"

definition sentence_chunk :: "pydict option \<Rightarrow> nat \<Rightarrow> string list \<Rightarrow> chunk" where
  "sentence_chunk metadata index current =
     Chunk (join '' '' current)
       (Some (dict_update (or_empty metadata)
          [(''chunk_index'', PInt (int index)),
           (''chunking_strategy'', PStr ''heuristic_sentence''),
           (''sentence_count'', PInt (int (length current)))]))"

text \<open>The loop of \<open>_chunk_by_sentences\<close> over the sentences left, with the state
  \<open>chunks\<close>, \<open>current\<close>, \<open>current_words\<close>; the empty list is the code after the loop.\<close>

fun sentence_loop ::
  "int \<Rightarrow> int \<Rightarrow> pydict option \<Rightarrow> nat \<Rightarrow> string list \<Rightarrow> chunk list \<Rightarrow> string list \<Rightarrow> nat
     \<Rightarrow> chunk list" where
  "sentence_loop chunk_size overlap metadata start_index [] chunks current current_words =
     (if current \<noteq> []
      then chunks @ [sentence_chunk metadata (start_index + length chunks) current]
      else chunks)"
| "sentence_loop chunk_size overlap metadata start_index (sentence # rest) chunks current
       current_words =
     (let sentence_words = word_count_of sentence in
      if int (current_words + sentence_words) > chunk_size \<and> current \<noteq> [] then
        let chunks1 = chunks @ [sentence_chunk metadata (start_index + length chunks) current];
            (current1, current_words1) =
              (if overlap > 0 \<and> current \<noteq> []
               then overlap_tail overlap (rev current) [] 0
               else ([], 0))
        in sentence_loop chunk_size overlap metadata start_index rest chunks1
             (current1 @ [sentence]) (current_words1 + sentence_words)
      else sentence_loop chunk_size overlap metadata start_index rest chunks
             (current @ [sentence]) (current_words + sentence_words))"

definition chunk_by_sentences ::
  "int \<Rightarrow> int \<Rightarrow> string \<Rightarrow> pydict option \<Rightarrow> nat \<Rightarrow> chunk list" where
  "chunk_by_sentences chunk_size overlap t metadata start_index =
     sentence_loop chunk_size overlap metadata start_index (split_sentences [] t) [] [] 0"

definition paragraph_chunk :: "pydict option \<Rightarrow> nat \<Rightarrow> string list \<Rightarrow> chunk" where
  "paragraph_chunk metadata index current_chunk =
     Chunk (join [CHR 0x0A, CHR 0x0A] current_chunk)
       (Some (dict_update (or_empty metadata)
          [(''chunk_index'', PInt (int index)),
           (''chunking_strategy'', PStr ''heuristic''),
           (''paragraph_count'', PInt (int (length current_chunk)))]))"

text \<open>The loop of \<open>HeuristicChunker.chunk\<close> over the paragraphs left, with the state
  \<open>chunks\<close>, \<open>current_chunk\<close>, \<open>current_word_count\<close>; the empty list is the code after the
  loop.\<close>

fun paragraph_loop ::
  "int \<Rightarrow> int \<Rightarrow> pydict option \<Rightarrow> string list \<Rightarrow> chunk list \<Rightarrow> string list \<Rightarrow> nat
     \<Rightarrow> chunk list" where
  "paragraph_loop chunk_size overlap metadata [] chunks current_chunk current_word_count =
     (if current_chunk \<noteq> []
      then chunks @ [paragraph_chunk metadata (length chunks) current_chunk]
      else chunks)"
| "paragraph_loop chunk_size overlap metadata (para # rest) chunks current_chunk
       current_word_count =
     (let para_word_count = word_count_of para in
      if int (current_word_count + para_word_count) > chunk_size then
        let (chunks1, current_chunk1, current_word_count1) =
              (if current_chunk \<noteq> [] then
                 let overlap_text = get_overlap_text overlap current_chunk
                 in (chunks @ [paragraph_chunk metadata (length chunks) current_chunk],
                     if overlap_text \<noteq> [] then [overlap_text] else [],
                     if overlap_text \<noteq> [] then word_count_of overlap_text else 0)
               else (chunks, current_chunk, current_word_count))
        in if int para_word_count > chunk_size
           then paragraph_loop chunk_size overlap metadata rest
                  (chunks1 @ chunk_by_sentences chunk_size overlap para metadata (length chunks1))
                  current_chunk1 current_word_count1
           else paragraph_loop chunk_size overlap metadata rest chunks1
                  (current_chunk1 @ [para]) (current_word_count1 + para_word_count)
      else paragraph_loop chunk_size overlap metadata rest chunks
             (current_chunk @ [para]) (current_word_count + para_word_count))"

definition heuristic_chunk :: "int \<Rightarrow> int \<Rightarrow> string \<Rightarrow> pydict option \<Rightarrow> chunk list" where
  "heuristic_chunk chunk_size overlap t metadata =
     paragraph_loop chunk_size overlap metadata (split_into_paragraphs t) [] [] 0"

subsection \<open>\<open>SemanticChunker\<close>\<close>

text \<open>
  \<open>re.match(r'^(#{1,6})\s+(.+)$', line)\<close> on a line of \<open>text.split('\n')\<close>, which holds
  no newline: one to six \<open>#\<close>, then whitespace, then at least one more character. The
  groups are the run of \<open>#\<close> and the rest of the line after the whitespace; when the line
  ends with the whitespace, \<open>\s+\<close> gives its last character back to \<open>.+\<close>.
\<close>

definition header_match :: "string \<Rightarrow> (string \<times> string) option" where
  "header_match line =
     (let hashes = takeWhile (\<lambda>c. c = CHR ''#'') line;
          after = dropWhile (\<lambda>c. c = CHR ''#'') line;
          ws = takeWhile isspace after;
          rest = dropWhile isspace after
      in if 1 \<le> length hashes \<and> length hashes \<le> 6 \<and> ws \<noteq> [] then
           (if rest \<noteq> [] then Some (hashes, rest)
            else if 2 \<le> length ws then Some (hashes, [last ws])
            else None)
         else None)"

text \<open>A section while it is read: \<open>section_lines\<close> is the list \<open>current_section['text']\<close>.
  A finished section has the joined, stripped text.\<close>

record open_section =
  open_title :: string
  open_level :: nat
  section_lines :: "string list"

record md_section =
  section_title :: string
  section_level :: nat
  section_text :: string

text \<open>\<open>if current_section['text']: ...; if current_section['text']: sections.append(...)\<close>\<close>

definition save_section :: "open_section \<Rightarrow> md_section list \<Rightarrow> md_section list" where
  "save_section current_section sections =
     (if section_lines current_section \<noteq> [] then
        let t = strip (join [CHR 0x0A] (section_lines current_section))
        in if t \<noteq> []
           then sections @ [\<lparr> section_title = open_title current_section,
                              section_level = open_level current_section,
                              section_text = t \<rparr>]
           else sections
      else sections)"

fun section_loop :: "string list \<Rightarrow> md_section list \<Rightarrow> open_section \<Rightarrow> md_section list" where
  "section_loop [] sections current_section = save_section current_section sections"
| "section_loop (line # lines) sections current_section =
     (case header_match line of
        Some (hashes, title) \<Rightarrow>
          section_loop lines (save_section current_section sections)
            \<lparr> open_title = strip title, open_level = length hashes, section_lines = [line] \<rparr>
      | None \<Rightarrow>
          section_loop lines sections
            (current_section\<lparr>section_lines := section_lines current_section @ [line]\<rparr>))"

definition parse_markdown_sections :: "string \<Rightarrow> md_section list" where
  "parse_markdown_sections t =
     section_loop (str_split [CHR 0x0A] [] t) []
       \<lparr> open_title = ''Introduction'', open_level = 0, section_lines = [] \<rparr>"

text \<open>The loop of \<open>SemanticChunker.chunk\<close> over the sections left.\<close>

fun semantic_loop ::
  "int \<Rightarrow> int \<Rightarrow> pydict option \<Rightarrow> md_section list \<Rightarrow> chunk list \<Rightarrow> chunk list" where
  "semantic_loop chunk_size overlap metadata [] chunks = chunks"
| "semantic_loop chunk_size overlap metadata (sec # rest) chunks =
     (let section_word_count = word_count_of (section_text sec) in
      if int section_word_count \<le> chunk_size then
        semantic_loop chunk_size overlap metadata rest
          (chunks @
            [Chunk (section_text sec)
               (Some (dict_update (or_empty metadata)
                  [(''chunk_index'', PInt (int (length chunks))),
                   (''chunking_strategy'', PStr ''semantic''),
                   (''section_title'', PStr (section_title sec)),
                   (''section_level'', PInt (int (section_level sec))),
                   (''is_complete_section'', PBool True)]))])
      else
        let sub_chunks =
              heuristic_chunk chunk_size overlap (section_text sec)
                (Some (dict_update (or_empty metadata)
                   [(''parent_section'', PStr (section_title sec)),
                    (''section_level'', PInt (int (section_level sec)))]))
        in semantic_loop chunk_size overlap metadata rest
             (chunks @
               map (\<lambda>sub_chunk. sub_chunk\<lparr>chunk_metadata :=
                      dict_update (chunk_metadata sub_chunk)
                        [(''chunking_strategy'', PStr ''semantic_hybrid''),
                         (''is_complete_section'', PBool False)]\<rparr>) sub_chunks))"

definition semantic_chunk :: "int \<Rightarrow> int \<Rightarrow> string \<Rightarrow> pydict option \<Rightarrow> chunk list" where
  "semantic_chunk chunk_size overlap t metadata =
     semantic_loop chunk_size overlap metadata (parse_markdown_sections t) []"

text \<open>The \<open>chunk_index\<close> entries of a list of chunks, \<open>None\<close> where a chunk has none.\<close>

definition chunk_indices :: "chunk list \<Rightarrow> pyval option list" where
  "chunk_indices chunks = map (\<lambda>c. map_of (chunk_metadata c) ''chunk_index'') chunks"

subsection \<open>\<open>IntelligentChunker\<close>\<close>

text \<open>
  The request of \<open>litellm.acompletion\<close>: the model, the content of the single user
  message, the temperature and \<open>max_tokens\<close>. The provider is a function from the request
  to its outcome: the content of the first choice (\<open>None\<close> when the message has none), or
  an exception.
\<close>

record completion_request =
  request_model :: string
  request_prompt :: string
  request_temperature :: real
  request_max_tokens :: nat

definition split_prompt :: "int \<Rightarrow> string \<Rightarrow> string" where
  "split_prompt chunk_size t =
     ''Analyze the following text and identify the best places to split it into smaller chunks of approximately ''
     @ str_int chunk_size @ '' words each.'' @ [CHR 0x0A, CHR 0x0A]
     @ ''Each chunk should:'' @ [CHR 0x0A]
     @ ''1. Be semantically coherent (complete thoughts/topics)'' @ [CHR 0x0A]
     @ ''2. Start and end at natural boundaries'' @ [CHR 0x0A]
     @ ''3. Be around '' @ str_int chunk_size @ '' words (but prioritize coherence)''
     @ [CHR 0x0A, CHR 0x0A]
     @ ''Text to split:'' @ [CHR 0x0A] @ t @ [CHR 0x0A, CHR 0x0A]
     @ ''Respond with the split points marked by '' @ [CHR 0x22] @ ''---SPLIT---'' @ [CHR 0x22]
     @ '' between sections. Include the original text with split markers.''"

text \<open>The loop \<open>for i, section in enumerate(sections)\<close> of \<open>_llm_split_chunk\<close>, from
  index \<open>i\<close> on: the chunks it appends.\<close>

fun llm_sections :: "string \<Rightarrow> pydict option \<Rightarrow> nat \<Rightarrow> nat \<Rightarrow> string list \<Rightarrow> chunk list" where
  "llm_sections llm_model metadata base_index i [] = []"
| "llm_sections llm_model metadata base_index i (sec # rest) =
     (let stripped = strip sec in
      (if stripped \<noteq> [] \<and> length (split stripped) > 50
       then [Chunk stripped
               (Some (dict_update (or_empty metadata)
                  [(''chunk_index'', PInt (int (base_index * 10 + i))),
                   (''chunking_strategy'', PStr ''intelligent_llm''),
                   (''llm_model'', PStr llm_model)]))]
       else [])
      @ llm_sections llm_model metadata base_index (i + 1) rest)"

text \<open>
  \<open>_llm_split_chunk\<close>. Every exception of the \<open>try\<close> block ends in the heuristic
  fallback: an exception of the provider call, and the \<open>AttributeError\<close> of
  \<open>split_text.split\<close> when the content is \<open>None\<close>.
\<close>

definition llm_split_chunk ::
  "int \<Rightarrow> int \<Rightarrow> string \<Rightarrow> (completion_request \<Rightarrow> string option outcome) \<Rightarrow>
     string \<Rightarrow> pydict option \<Rightarrow> nat \<Rightarrow> chunk list" where
  "llm_split_chunk chunk_size overlap llm_model acompletion t metadata base_index =
     (case acompletion
             \<lparr> request_model = llm_model, request_prompt = split_prompt chunk_size t,
               request_temperature = 0.3, request_max_tokens = length (split t) + 200 \<rparr> of
        Returns (Some split_text) \<Rightarrow>
          let chunks = llm_sections llm_model metadata base_index 0
                         (str_split ''---SPLIT---'' [] split_text)
          in if chunks \<noteq> [] then chunks else [Chunk t metadata]
      | Returns None \<Rightarrow> heuristic_chunk chunk_size overlap t metadata
      | Raises e \<Rightarrow> heuristic_chunk chunk_size overlap t metadata)"

text \<open>The loop \<open>for i, chunk in enumerate(base_chunks)\<close> of \<open>IntelligentChunker.chunk\<close>,
  from index \<open>i\<close> on, with the state \<open>refined_chunks\<close>.\<close>

fun refine_loop ::
  "int \<Rightarrow> int \<Rightarrow> string \<Rightarrow> (completion_request \<Rightarrow> string option outcome) \<Rightarrow>
     pydict option \<Rightarrow> nat \<Rightarrow> chunk list \<Rightarrow> chunk list \<Rightarrow> chunk list" where
  "refine_loop chunk_size overlap llm_model acompletion metadata i [] refined_chunks =
     refined_chunks"
| "refine_loop chunk_size overlap llm_model acompletion metadata i (c # rest) refined_chunks =
     (if real (word_count c) > real_of_int chunk_size * 1.5
      then refine_loop chunk_size overlap llm_model acompletion metadata (i + 1) rest
             (refined_chunks @
                llm_split_chunk chunk_size overlap llm_model acompletion (chunk_text c) metadata i)
      else refine_loop chunk_size overlap llm_model acompletion metadata (i + 1) rest
             (refined_chunks @
                [c\<lparr>chunk_metadata :=
                    dict_update (chunk_metadata c)
                      [(''chunking_strategy'', PStr ''intelligent''),
                       (''chunk_index'', PInt (int (length refined_chunks)))]\<rparr>]))"

definition intelligent_chunk ::
  "int \<Rightarrow> int \<Rightarrow> string \<Rightarrow> (completion_request \<Rightarrow> string option outcome) \<Rightarrow>
     string \<Rightarrow> pydict option \<Rightarrow> chunk list" where
  "intelligent_chunk chunk_size overlap llm_model acompletion t metadata =
     (if int (length (split t)) \<le> chunk_size
      then [Chunk t
              (Some (dict_update (or_empty metadata)
                 [(''chunk_index'', PInt 0),
                  (''chunking_strategy'', PStr ''intelligent_single'')]))]
      else refine_loop chunk_size overlap llm_model acompletion metadata 0
             (semantic_chunk chunk_size overlap t metadata) [])"

section \<open>Provider calls\<close>

text \<open>
  The generation and embedding provider is reached through \<open>litellm.acompletion\<close> and
  \<open>litellm.aembedding\<close>. A completion request holds the model, the messages (role and
  content), the temperature, \<open>max_tokens\<close> and the \<open>stream\<close> flag. A response without
  streaming holds the content of each choice's message and the \<open>usage.total_tokens\<close>
  (\<open>None\<close> when there is no usage). A streaming response is the sequence of the chunks
  it delivers, each the \<open>delta.content\<close> of its first choice, and the exception that ends
  the iteration, if one does.
\<close>

record chat_request =
  req_model :: string
  req_messages :: "(string \<times> string) list"
  req_temperature :: real
  req_max_tokens :: int
  req_stream :: bool

record chat_response =
  choices :: "string option list"
  total_tokens :: "nat option"

record stream_response =
  deltas :: "string option list"
  stream_error :: "exn option"

text \<open>
  The provider has a state of its own (\<open>provider_state\<close>), and \<open>calls\<close> counts how often
  the process has invoked it. \<open>call_provider\<close> is one invocation of a provider function.
\<close>

record 'p provider =
  calls :: nat
  provider_state :: 'p

definition call_provider ::
  "('q \<Rightarrow> 'p \<Rightarrow> 'a outcome \<times> 'p) \<Rightarrow> 'q \<Rightarrow> 'p provider \<Rightarrow> 'a outcome \<times> 'p provider" where
  "call_provider f req w =
     (case f req (provider_state w) of
        (out, p') \<Rightarrow> (out, \<lparr> calls = calls w + 1, provider_state = p' \<rparr>))"

text \<open>The three entry points of the provider: a completion, a streamed completion
  (\<open>stream=True\<close>), and an embedding of an input under a model, which answers with the
  list \<open>response.data\<close> of embeddings.\<close>

record 'p litellm =
  llm_acompletion :: "chat_request \<Rightarrow> 'p \<Rightarrow> chat_response outcome \<times> 'p"
  llm_acompletion_stream :: "chat_request \<Rightarrow> 'p \<Rightarrow> stream_response outcome \<times> 'p"
  llm_aembedding :: "string \<times> string \<Rightarrow> 'p \<Rightarrow> real list list outcome \<times> 'p"

subsection \<open>\<open>VectorStoreManager\<close>\<close>

text \<open>\<open>generate_embedding\<close>: \<open>response.data[0]["embedding"]\<close>, and every exception is
  raised again.\<close>

definition generate_embedding ::
  "'p litellm \<Rightarrow> string \<Rightarrow> string \<Rightarrow> 'p provider run \<Rightarrow> (exn + real list) \<times> 'p provider run" where
  "generate_embedding llm embedding_model t r =
     (case call_provider (llm_aembedding llm) (embedding_model, t) (func_state r) of
        (Returns dat, w) \<Rightarrow>
          (case dat of
             [] \<Rightarrow> (Inl (OtherError ''list index out of range''), r\<lparr>func_state := w\<rparr>)
           | embedding # rest \<Rightarrow> (Inr embedding, r\<lparr>func_state := w\<rparr>))
      | (Raises e, w) \<Rightarrow> (Inl e, r\<lparr>func_state := w\<rparr>))"

text \<open>\<open>search_similar\<close>: the embedding of the query, then the query of the vector store,
  whose result (or exception) for a vector, a namespace and \<open>top_k\<close> is \<open>store_query\<close>.\<close>

definition search_similar ::
  "'p litellm \<Rightarrow> string \<Rightarrow> (real list \<Rightarrow> string \<Rightarrow> int \<Rightarrow> pydict list outcome) \<Rightarrow>
     string \<Rightarrow> string \<Rightarrow> int \<Rightarrow> 'p provider run \<Rightarrow> (exn + pydict list) \<times> 'p provider run" where
  "search_similar llm embedding_model store_query query content_id top_k r =
     (case generate_embedding llm embedding_model query r of
        (Inl e, r1) \<Rightarrow> (Inl e, r1)
      | (Inr query_embedding, r1) \<Rightarrow>
          (case store_query query_embedding content_id top_k of
             Returns results \<Rightarrow> (Inr results, r1)
           | Raises e \<Rightarrow> (Inl e, r1)))"

text \<open>\<open>store_chunks\<close>, up to the upsert: one embedding per chunk text, in order; the
  first exception ends the loop.\<close>

fun embed_chunks ::
  "'p litellm \<Rightarrow> string \<Rightarrow> string list \<Rightarrow> 'p provider run \<Rightarrow>
     (exn + real list list) \<times> 'p provider run" where
  "embed_chunks llm embedding_model [] r = (Inr [], r)"
| "embed_chunks llm embedding_model (t # ts) r =
     (case generate_embedding llm embedding_model t r of
        (Inl e, r1) \<Rightarrow> (Inl e, r1)
      | (Inr embedding, r1) \<Rightarrow>
          (case embed_chunks llm embedding_model ts r1 of
             (Inl e, r2) \<Rightarrow> (Inl e, r2)
           | (Inr embeddings, r2) \<Rightarrow> (Inr (embedding # embeddings), r2)))"

subsection \<open>\<open>QueryClassifier.classify_query\<close>\<close>

text \<open>
  The classifier has its model, the \<open>enabled\<close> flag and the prompts of the YAML file:
  \<open>qc_user_prompt\<close> is \<open>classification_user_prompt.format(query=query)\<close>, which is a
  string or an exception of \<open>str.format\<close>. \<open>qc_json_loads\<close> is \<open>json.loads\<close>, \<open>None\<close>
  where it raises \<open>JSONDecodeError\<close>.
\<close>

record query_classifier =
  qc_model :: string
  qc_enabled :: bool
  qc_system_prompt :: string
  qc_user_prompt :: "string \<Rightarrow> string outcome"
  qc_json_loads :: "string \<Rightarrow> pyval option"

definition exn_str :: "exn \<Rightarrow> string" where
  "exn_str e = (case e of RateLimitError m \<Rightarrow> m | APIError m \<Rightarrow> m | OtherError m \<Rightarrow> m)"

definition default_classification :: "real \<Rightarrow> string \<Rightarrow> pyval" where
  "default_classification c why =
     PDict [(''is_question'', PBool True), (''is_relevant'', PBool True),
            (''question_type'', PStr ''general''), (''confidence'', PFloat c),
            (''reasoning'', PStr why)]"

definition classification_error :: "exn \<Rightarrow> pyval" where
  "classification_error e = default_classification 0.5 (''Classification error: '' @ exn_str e)"

text \<open>The text between the first code fence and the next one, when there is a fence.\<close>

definition extract_json :: "string \<Rightarrow> string" where
  "extract_json classification_text =
     (if contains classification_text ''```json''
      then strip (hd (str_split ''```'' [] (str_split ''```json'' [] classification_text ! 1)))
      else if contains classification_text ''```''
      then strip (hd (str_split ''```'' [] (str_split ''```'' [] classification_text ! 1)))
      else classification_text)"

definition classify_query ::
  "query_classifier \<Rightarrow> 'p litellm \<Rightarrow> string \<Rightarrow> 'p provider run \<Rightarrow> pyval \<times> 'p provider run" where
  "classify_query qc llm query r =
     (if \<not> qc_enabled qc then (default_classification 1.0 ''Classification disabled'', r)
      else case qc_user_prompt qc query of
        Raises e \<Rightarrow> (classification_error e, r)
      | Returns user_prompt \<Rightarrow>
          (case call_provider (llm_acompletion llm)
                  \<lparr> req_model = qc_model qc,
                    req_messages = [(''system'', qc_system_prompt qc), (''user'', user_prompt)],
                    req_temperature = 0.3, req_max_tokens = 200, req_stream = False \<rparr>
                  (func_state r) of
             (Raises e, w) \<Rightarrow> (classification_error e, r\<lparr>func_state := w\<rparr>)
           | (Returns response, w) \<Rightarrow>
               (case choices response of
                  [] \<Rightarrow> (classification_error (OtherError ''list index out of range''),
                         r\<lparr>func_state := w\<rparr>)
                | None # rest \<Rightarrow>
                    (classification_error
                       (OtherError
                          ([CHR 0x27] @ ''NoneType'' @ [CHR 0x27] @ '' object has no attribute ''
                           @ [CHR 0x27] @ ''strip'' @ [CHR 0x27])),
                     r\<lparr>func_state := w\<rparr>)
                | Some content # rest \<Rightarrow>
                    (case qc_json_loads qc (extract_json (strip content)) of
                       None \<Rightarrow> (default_classification 0.5 ''Classification parsing failed'',
                                r\<lparr>func_state := w\<rparr>)
                     | Some classification \<Rightarrow> (classification, r\<lparr>func_state := w\<rparr>)))))"

subsection \<open>\<open>QueryEngine\<close>\<close>

text \<open>
  The engine has its model, temperature and \<open>max_tokens\<close>, the embedding model of its
  vector store manager, the store's query, and the prompts: \<open>qe_prepare_context\<close> is
  \<open>_prepare_context(chunks)\<close> and \<open>qe_user_prompt context question\<close> is
  \<open>chatbot_user_prompt.format(context=context, question=question)\<close>, each a string or
  the exception it raises.
\<close>

record query_engine =
  qe_model :: string
  qe_temperature :: real
  qe_max_tokens :: int
  qe_embedding_model :: string
  qe_store_query :: "real list \<Rightarrow> string \<Rightarrow> int \<Rightarrow> pydict list outcome"
  qe_system_prompt :: string
  qe_prepare_context :: "pydict list \<Rightarrow> string outcome"
  qe_user_prompt :: "string \<Rightarrow> string \<Rightarrow> string outcome"

definition generation_request :: "query_engine \<Rightarrow> string \<Rightarrow> bool \<Rightarrow> chat_request" where
  "generation_request qe user_prompt stream =
     \<lparr> req_model = qe_model qe,
       req_messages = [(''system'', qe_system_prompt qe), (''user'', user_prompt)],
       req_temperature = qe_temperature qe, req_max_tokens = qe_max_tokens qe,
       req_stream = stream \<rparr>"

text \<open>\<open>_generate_answer\<close>: the call goes through \<open>execute_with_retry\<close>; every exception is
  raised again.\<close>

definition generate_answer ::
  "query_engine \<Rightarrow> 'p litellm \<Rightarrow> string \<Rightarrow> string \<Rightarrow> 'p provider run \<Rightarrow>
     (exn + pydict) \<times> 'p provider run" where
  "generate_answer qe llm question context r =
     (case qe_user_prompt qe context question of
        Raises e \<Rightarrow> (Inl e, r)
      | Returns user_prompt \<Rightarrow>
          (case execute_with_retry
                  (call_provider (llm_acompletion llm) (generation_request qe user_prompt False)) r of
             (Inl e, r1) \<Rightarrow> (Inl e, r1)
           | (Inr response, r1) \<Rightarrow>
               (case choices response of
                  [] \<Rightarrow> (Inl (OtherError ''list index out of range''), r1)
                | answer # rest \<Rightarrow>
                    (Inr [(''answer'', (case answer of None \<Rightarrow> PNone | Some a \<Rightarrow> PStr a)),
                          (''tokens_used'',
                           PInt (case total_tokens response of None \<Rightarrow> 0 | Some n \<Rightarrow> int n))],
                     r1))))"

definition no_context_message :: string where
  "no_context_message =
     ''I couldn'' @ [CHR 0x27] @ ''t find relevant information in your uploaded content to answer this question.''"

definition stream_error_message :: string where
  "stream_error_message = ''An error occurred while generating the answer. Please try again.''"

text \<open>The chunks that \<open>async for chunk in response\<close> yields: the contents that are neither
  \<open>None\<close> nor empty.\<close>

fun stream_contents :: "string option list \<Rightarrow> string list" where
  "stream_contents [] = []"
| "stream_contents (None # ds) = stream_contents ds"
| "stream_contents (Some c # ds) = (if c \<noteq> [] then c # stream_contents ds else stream_contents ds)"

text \<open>
  \<open>answer_question_stream\<close>: what the generator yields, in order, and the state after
  it is exhausted. Every exception inside it, also one that ends the stream of the
  provider, is answered by the message of the \<open>except\<close> clause.
\<close>

definition answer_question_stream ::
  "query_engine \<Rightarrow> 'p litellm \<Rightarrow> string \<Rightarrow> string \<Rightarrow> int \<Rightarrow> 'p provider run \<Rightarrow>
     string list \<times> 'p provider run" where
  "answer_question_stream qe llm question content_id top_k r =
     (case search_similar llm (qe_embedding_model qe) (qe_store_query qe)
             question content_id top_k r of
        (Inl e, r1) \<Rightarrow> ([stream_error_message], r1)
      | (Inr relevant_chunks, r1) \<Rightarrow>
          if relevant_chunks = [] then ([no_context_message], r1)
          else case qe_prepare_context qe relevant_chunks of
            Raises e \<Rightarrow> ([stream_error_message], r1)
          | Returns context \<Rightarrow>
              (case qe_user_prompt qe context question of
                 Raises e \<Rightarrow> ([stream_error_message], r1)
               | Returns user_prompt \<Rightarrow>
                   (case execute_with_retry
                           (call_provider (llm_acompletion_stream llm)
                              (generation_request qe user_prompt True)) r1 of
                      (Inl e, r2) \<Rightarrow> ([stream_error_message], r2)
                    | (Inr response, r2) \<Rightarrow>
                        (stream_contents (deltas response) @
                           (case stream_error response of
                              None \<Rightarrow> []
                            | Some e \<Rightarrow> [stream_error_message]),
                         r2))))"

section \<open>Chatbot engine\<close>

subsection \<open>\<open>ConversationManager\<close>\<close>






subsection \<open>\<open>ChatbotEngine.ask_question_stream\<close>\<close>















section \<open>Properties\<close>

subsection \<open>The storage decision\<close>

text \<open>
  C9. For every ClassificationResult \<open>c\<close>, \<open>should_store_question\<close> returns the boolean
  \<open>is_question \<and> is_relevant \<and> confidence \<ge> 0.6\<close>, without raising: it is false at
  confidence 0.59 and true at confidence 0.60 when both flags are true.
\<close>

theorem should_store_question_iff:
  "should_store_question (classification_dict c) =
     Inr (PBool (is_question c \<and> is_relevant c \<and> confidence c \<ge> 0.6))
   \<and> should_store_question (classification_dict
         (c\<lparr>is_question := True, is_relevant := True, confidence := 0.59\<rparr>)) = Inr (PBool False)
   \<and> should_store_question (classification_dict
         (c\<lparr>is_question := True, is_relevant := True, confidence := 0.60\<rparr>)) = Inr (PBool True)"
proof -
  have general: "should_store_question (classification_dict d) =
      Inr (PBool (is_question d \<and> is_relevant d \<and> confidence d \<ge> 0.6))" for d
    by (simp add: should_store_question_def classification_dict_def dict_get_def Let_def)
  show ?thesis
    by (simp add: general)
qed

subsection \<open>The retry loop\<close>

lemma sleep_simps [simp]:
  "limiter (sleep d r) = limiter r"
  "invocations (sleep d r) = invocations r"
  "sleeps (sleep d r) = sleeps r @ [d]"
  "func_state (sleep d r) = func_state r"
  by (simp_all add: sleep_def)

lemma count_failed_simps [simp]:
  "invocations (count_failed r) = invocations r"
  "sleeps (count_failed r) = sleeps r"
  "func_state (count_failed r) = func_state r"
  "max_retries (limiter (count_failed r)) = max_retries (limiter r)"
  by (simp_all add: count_failed_def)

lemma count_success_simps [simp]:
  "invocations (count_success a r) = invocations r"
  "sleeps (count_success a r) = sleeps r"
  "func_state (count_success a r) = func_state r"
  by (simp_all add: count_success_def)

text \<open>When \<open>max_retries\<close> is the natural number \<open>M\<close>: from attempt \<open>i\<close> on, the loop awaits
  \<open>func\<close> \<open>k + 1\<close> times for some \<open>k\<close> with \<open>i + k \<le> M\<close>, and sleeps once between two
  consecutive attempts, for the backoff delay of the attempt that failed.\<close>

lemma attempt_loop_bound:
  assumes "max_retries (limiter r) = int M" and "i \<le> M"
  shows "\<exists>k. invocations (snd (attempt_loop func [i..<M + 1] le r))
              = invocations r + k + 1 \<and> i + k \<le> M \<and>
         sleeps (snd (attempt_loop func [i..<M + 1] le r))
              = sleeps r @ map (backoff_delay (limiter r)) [i..<i + k]"
  using assms
proof (induction "M - i" arbitrary: i r le)
  case 0
  then have i: "i = M" by simp
  have l: "[i..<M + 1] = [i]" using i by simp
  have nl: "\<not> int i < max_retries (limiter r)" using i 0(2) by simp
  show ?case
    apply (rule exI[of _ 0])
    unfolding l
    using nl i
    by (auto simp: Let_def split: prod.splits outcome.splits exn.splits)
next
  case (Suc n)
  then have lt: "i < M" by simp
  have lt': "int i < max_retries (limiter r)" using lt Suc(3) by simp
  have l: "[i..<M + 1] = i # [Suc i..<M + 1]"
    using lt by (simp add: upt_conv_Cons)
  obtain res s' where f: "func (func_state r) = (res, s')" by (cases "func (func_state r)")
  define r1 where "r1 = r\<lparr>func_state := s', invocations := invocations r + 1\<rparr>"
  define r2 where "r2 = sleep (backoff_delay (limiter r1) i) r1"
  have r2: "limiter r2 = limiter r" "invocations r2 = invocations r + 1"
     "sleeps r2 = sleeps r @ [backoff_delay (limiter r) i]"
    by (simp_all add: r2_def r1_def)
  have IH: "\<exists>k. invocations (snd (attempt_loop func [Suc i..<M + 1] le' r2))
              = invocations r2 + k + 1 \<and> Suc i + k \<le> M \<and>
         sleeps (snd (attempt_loop func [Suc i..<M + 1] le' r2))
              = sleeps r2 @ map (backoff_delay (limiter r)) [Suc i..<Suc i + k]" for le'
  proof -
    have a: "n = M - Suc i" using Suc(2) by simp
    have m: "max_retries (limiter r2) = int M" using Suc(3) r2(1) by simp
    have b: "Suc i \<le> M" using lt by simp
    show ?thesis using Suc(1)[OF a m b, of le'] by (simp only: r2(1))
  qed
  have stop: "\<exists>k. invocations r + 1 = invocations r + k + 1 \<and> i + k \<le> M \<and>
       sleeps r = sleeps r @ map (backoff_delay (limiter r)) [i..<i + k]"
    using lt by (intro exI[of _ 0]) simp
  have cont: "\<exists>k. invocations (snd (attempt_loop func [Suc i..<M + 1] le' r2))
        = invocations r + k + 1 \<and> i + k \<le> M \<and>
       sleeps (snd (attempt_loop func [Suc i..<M + 1] le' r2))
        = sleeps r @ map (backoff_delay (limiter r)) [i..<i + k]" for le'
  proof -
    from IH[of le'] obtain k where k:
      "invocations (snd (attempt_loop func [Suc i..<M + 1] le' r2))
         = invocations r2 + k + 1"
      "Suc i + k \<le> M"
      "sleeps (snd (attempt_loop func [Suc i..<M + 1] le' r2))
         = sleeps r2 @ map (backoff_delay (limiter r)) [Suc i..<Suc i + k]" by blast
    have step: "[i..<i + Suc k] = i # [Suc i..<Suc i + k]"
      by (simp add: upt_conv_Cons del: upt_Suc)
    show ?thesis
    proof (intro exI[of _ "Suc k"] conjI)
      show "invocations (snd (attempt_loop func [Suc i..<M + 1] le' r2))
          = invocations r + Suc k + 1" using k(1) r2(2) by simp
      show "i + Suc k \<le> M" using k(2) by simp
      show "sleeps (snd (attempt_loop func [Suc i..<M + 1] le' r2))
          = sleeps r @ map (backoff_delay (limiter r)) [i..<i + Suc k]"
        unfolding k(3) r2(3) step by simp
    qed
  qed
  show ?case
    unfolding l
    using stop cont lt'
    by (auto simp add: f Let_def r2_def r1_def simp del: upt_Suc
        split: outcome.splits exn.splits)
qed

text \<open>
  C4 (as amended). One call of \<open>execute_with_retry\<close> awaits the wrapped operation at most
  \<open>max_retries + 1\<close> times: one first attempt and at most \<open>max_retries\<close> retries. The
  operation is not awaited at all exactly when \<open>max_retries\<close> is negative (the \<open>range\<close> of
  the loop is empty then). The sleeps of the call are, in order,
  \<open>retry_delay * retry_backoff ^ attempt\<close> for \<open>attempt = 0, 1, ...\<close>: one sleep after
  every attempt but the last.
\<close>

theorem execute_with_retry_attempts:
  "let r' = snd (execute_with_retry func r); n = invocations r' - invocations r in
     invocations r \<le> invocations r' \<and>
     int n \<le> max 0 (max_retries (limiter r) + 1) \<and>
     (n = 0) = (max_retries (limiter r) < 0) \<and>
     sleeps r' = sleeps r @
       map (\<lambda>attempt. retry_delay (limiter r) * retry_backoff (limiter r) ^ attempt) [0..<n - 1]"
proof -
  define r0 where
    "r0 = r\<lparr>limiter := (limiter r)\<lparr>total_requests := total_requests (limiter r) + 1\<rparr>\<rparr>"
  have m: "max_retries (limiter r0) = max_retries (limiter r)"
    and i: "invocations r0 = invocations r" and s: "sleeps r0 = sleeps r"
    and d: "backoff_delay (limiter r0) = backoff_delay (limiter r)"
    by (simp_all add: r0_def backoff_delay_def fun_eq_iff)
  have e: "execute_with_retry func r =
      attempt_loop func [0..<nat (max_retries (limiter r) + 1)] None r0"
    by (simp add: execute_with_retry_def r0_def)
  show ?thesis
  proof (cases "max_retries (limiter r) < 0")
    case True
    then have l: "[0..<nat (max_retries (limiter r) + 1)] = []" by simp
    have "invocations (snd (execute_with_retry func r)) = invocations r"
      and "sleeps (snd (execute_with_retry func r)) = sleeps r"
      by (simp_all add: e l i s)
    with True show ?thesis by (simp add: Let_def)
  next
    case False
    define M where "M = nat (max_retries (limiter r))"
    have mM: "max_retries (limiter r0) = int M" using False by (simp add: M_def m)
    have l: "nat (max_retries (limiter r) + 1) = M + 1" using False by (simp add: M_def)
    have "\<exists>k. invocations (snd (attempt_loop func [0..<M + 1] None r0)) = invocations r0 + k + 1 \<and>
        0 + k \<le> M \<and>
        sleeps (snd (attempt_loop func [0..<M + 1] None r0))
          = sleeps r0 @ map (backoff_delay (limiter r0)) [0..<0 + k]"
      by (rule attempt_loop_bound[OF mM le0])
    then obtain k where k:
      "invocations (snd (execute_with_retry func r)) = invocations r + k + 1"
      "k \<le> M"
      "sleeps (snd (execute_with_retry func r)) = sleeps r @ map (backoff_delay (limiter r)) [0..<k]"
      unfolding e l i s d by auto
    have bd: "backoff_delay (limiter r) =
        (\<lambda>attempt. retry_delay (limiter r) * retry_backoff (limiter r) ^ attempt)"
      by (simp add: backoff_delay_def fun_eq_iff)
    have kM: "int k + 1 \<le> max_retries (limiter r) + 1" using k(2) False by (simp add: M_def)
    show ?thesis
      using k(1,3) kM False by (simp add: Let_def bd)
  qed
qed

text \<open>
  C4 as stated fails: with \<open>max_retries = 2\<close> and an operation that raises a rate-limit
  error every time, the operation is awaited three times, not at most twice.
\<close>

theorem execute_with_retry_attempts_counterexample:
  "\<not> int (invocations (snd (execute_with_retry
         (\<lambda>s::unit. (Raises (RateLimitError ''429'') :: string outcome, s))
         (start_run (RateLimiter (Some 1) (Some 2) (Some 0.1) None) ()))))
      \<le> max_retries (RateLimiter (Some 1) (Some 2) (Some 0.1) None)"
proof -
  have l: "[0..<(3::nat)] = [0, 1, 2]"
    by (simp add: upt_conv_Cons)
  show ?thesis
    by (simp add: execute_with_retry_def start_run_def RateLimiter_def or_default_def
        l sleep_def count_failed_def)
qed

text \<open>
  With a negative \<open>max_retries\<close> the loop has no attempt: the operation is never awaited,
  and the call raises the exception of the code after the loop.
\<close>

lemma execute_with_retry_negative_max_retries:
  "execute_with_retry
     (\<lambda>s::unit. (Returns ''ok'', s))
     (start_run (RateLimiter (Some 1) (Some (- 1)) (Some 0.1) None) ()) =
   (Inl (OtherError ''Request failed after all retries''),
    \<lparr> limiter = (RateLimiter (Some 1) (Some (- 1)) (Some 0.1) None)
        \<lparr>total_requests := 1, failed_requests := 1\<rparr>,
      func_state = (), invocations = 0, sleeps = [] \<rparr>)"
  by (simp add: execute_with_retry_def start_run_def RateLimiter_def or_default_def
      count_failed_def)

text \<open>
  C5. With \<open>max_retries = 2\<close>, an operation that raises a retryable error on its first two
  invocations and returns \<open>v\<close> on the third: \<open>execute_with_retry\<close> returns \<open>v\<close>, the
  operation is awaited exactly three times, \<open>retried_requests\<close> and \<open>successful_requests\<close>
  grow by one and \<open>failed_requests\<close> is unchanged; from a limiter whose counters are zero,
  \<open>retried_requests\<close> is 1 afterwards.
\<close>

theorem fail_twice_then_succeed:
  assumes "max_retries (limiter r) = 2"
    and "func (func_state r) = (Raises e1, s1)" and "retryable e1"
    and "func s1 = (Raises e2, s2)" and "retryable e2"
    and "func s2 = (Returns v, s3)"
  shows "fst (execute_with_retry func r) = Inr v
     \<and> invocations (snd (execute_with_retry func r)) = invocations r + 3
     \<and> retried_requests (limiter (snd (execute_with_retry func r)))
         = retried_requests (limiter r) + 1
     \<and> successful_requests (limiter (snd (execute_with_retry func r)))
         = successful_requests (limiter r) + 1
     \<and> failed_requests (limiter (snd (execute_with_retry func r))) = failed_requests (limiter r)
     \<and> total_requests (limiter (snd (execute_with_retry func r))) = total_requests (limiter r) + 1"
proof -
  have l: "[0..<(3::nat)] = [0, 1, 2]"
    by (simp add: upt_conv_Cons)
  show ?thesis
    using assms
    by (cases e1; cases e2)
       (simp_all add: execute_with_retry_def l sleep_def count_success_def Let_def)
qed

theorem fail_twice_then_succeed_witness:
  "fst (execute_with_retry
         (\<lambda>n::nat. (if n < 2 then Raises (RateLimitError ''rate limit'') else Returns ''ok'', n + 1))
         (start_run (RateLimiter (Some 1) (Some 2) (Some 0.1) None) 0)) = Inr ''ok''
   \<and> invocations (snd (execute_with_retry
         (\<lambda>n::nat. (if n < 2 then Raises (RateLimitError ''rate limit'') else Returns ''ok'', n + 1))
         (start_run (RateLimiter (Some 1) (Some 2) (Some 0.1) None) 0))) = 3
   \<and> retried_requests (limiter (snd (execute_with_retry
         (\<lambda>n::nat. (if n < 2 then Raises (RateLimitError ''rate limit'') else Returns ''ok'', n + 1))
         (start_run (RateLimiter (Some 1) (Some 2) (Some 0.1) None) 0)))) = 1
   \<and> successful_requests (limiter (snd (execute_with_retry
         (\<lambda>n::nat. (if n < 2 then Raises (RateLimitError ''rate limit'') else Returns ''ok'', n + 1))
         (start_run (RateLimiter (Some 1) (Some 2) (Some 0.1) None) 0)))) = 1
   \<and> failed_requests (limiter (snd (execute_with_retry
         (\<lambda>n::nat. (if n < 2 then Raises (RateLimitError ''rate limit'') else Returns ''ok'', n + 1))
         (start_run (RateLimiter (Some 1) (Some 2) (Some 0.1) None) 0)))) = 0"
  using fail_twice_then_succeed
    [of "start_run (RateLimiter (Some 1) (Some 2) (Some 0.1) None) (0::nat)"
        "\<lambda>n::nat. (if n < 2 then Raises (RateLimitError ''rate limit'') else Returns ''ok'', n + 1)"
        "RateLimitError ''rate limit''" 1 "RateLimitError ''rate limit''" 2 "''ok''" 3]
  by (simp add: start_run_def RateLimiter_def or_default_def)

subsection \<open>Cache keys and glob patterns\<close>

lemma hex_digit_in: "hex_digit n \<in> set hexdigits"
proof -
  have "n mod 16 < length hexdigits" by (simp add: hexdigits_def)
  then show ?thesis unfolding hex_digit_def by (rule nth_mem)
qed

lemma hex_word_chars: "set (hex_word w) \<subseteq> set hexdigits"
  unfolding hex_word_def by (auto intro: hex_digit_in)


lemma concat_hex_chars: "set (concat (map hex_word ws)) \<subseteq> set hexdigits"
  using hex_word_chars by (induction ws) auto



lemma sha256_hexdigest_chars: "set (sha256_hexdigest s) \<subseteq> set hexdigits"
  by (simp only: sha256_hexdigest_def hexdigest_def concat_hex_chars)


lemma glob_match_literal:
  assumes "x \<noteq> CHR ''*''" "x \<noteq> CHR ''?''" "x \<noteq> CHR ''[''" "x \<noteq> CHR 0x5C"
  shows "glob_match (x # p) (c # s) = (c = x \<and> glob_match p s)"
  by (subst glob_match.simps(2)) (simp only: assms if_False list.case)

lemma glob_match_literal_Nil:
  assumes "x \<noteq> CHR ''*''"
  shows "\<not> glob_match (x # p) []"
  by (subst glob_match.simps(2)) (simp only: assms if_False list.case not_False_eq_True)

lemma glob_match_star:
  "glob_match (CHR ''*'' # p) s =
     (glob_match p s \<or> (case s of [] \<Rightarrow> False | c # s' \<Rightarrow> glob_match (CHR ''*'' # p) s'))"
  by (subst glob_match.simps(2)) (simp only: if_True refl)

lemma glob_match_prefix:
  assumes "\<forall>x \<in> set pre. x \<noteq> CHR ''*'' \<and> x \<noteq> CHR ''?'' \<and> x \<noteq> CHR ''['' \<and> x \<noteq> CHR 0x5C"
  shows "glob_match (pre @ p) (pre @ s) = glob_match p s"
  using assms
proof (induction pre)
  case Nil
  show ?case by (simp only: append_Nil)
next
  case (Cons x pre)
  from Cons.prems have x: "x \<noteq> CHR ''*''" "x \<noteq> CHR ''?''" "x \<noteq> CHR ''[''" "x \<noteq> CHR 0x5C"
    by simp_all
  from Cons.prems have
    "\<forall>x \<in> set pre. x \<noteq> CHR ''*'' \<and> x \<noteq> CHR ''?'' \<and> x \<noteq> CHR ''['' \<and> x \<noteq> CHR 0x5C"
    by simp
  then have ih: "glob_match (pre @ p) (pre @ s) = glob_match p s" by (rule Cons.IH)
  show ?case by (simp only: append_Cons glob_match_literal[OF x] ih simp_thms)
qed

text \<open>A pattern of literal characters and \<open>*\<close> matches no string that lacks one of its
  literal characters.\<close>

lemma glob_match_missing_char:
  assumes "\<forall>x \<in> set p. x \<noteq> CHR ''?'' \<and> x \<noteq> CHR ''['' \<and> x \<noteq> CHR 0x5C"
    and "c \<in> set p" and "c \<noteq> CHR ''*''" and "c \<notin> set s"
  shows "\<not> glob_match p s"
  using assms
proof (induction s arbitrary: p rule: length_induct)
  case (1 s)
  note outer = 1
  from outer(2,3,4,5) show ?case
  proof (induction p)
    case Nil
    then show ?case by simp
  next
    case (Cons x p)
    from Cons.prems(1) have lit: "x \<noteq> CHR ''?''" "x \<noteq> CHR ''[''" "x \<noteq> CHR 0x5C" by simp_all
    from Cons.prems(1) have pl: "\<forall>x \<in> set p. x \<noteq> CHR ''?'' \<and> x \<noteq> CHR ''['' \<and> x \<noteq> CHR 0x5C"
      by simp
    show ?case
    proof (cases "x = CHR ''*''")
      case True
      with Cons.prems(2,3) have cp: "c \<in> set p" by auto
      have a: "\<not> glob_match p s" using Cons.IH[OF pl cp Cons.prems(3,4)] .
      have b: "\<not> (case s of [] \<Rightarrow> False | d # s' \<Rightarrow> glob_match (CHR ''*'' # p) s')"
      proof (cases s)
        case Nil
        then show ?thesis by (simp only: list.case not_False_eq_True)
      next
        case s: (Cons d s')
        from Cons.prems(4) s have ns: "c \<notin> set s'" by simp
        from s have len: "length s' < length s" by simp
        from outer(1) len Cons.prems(1,2,3) ns True
        have "\<not> glob_match (CHR ''*'' # p) s'" by blast
        with s show ?thesis by (simp only: list.case simp_thms)
      qed
      from a b have "\<not> glob_match (CHR ''*'' # p) s"
        by (subst glob_match_star) (simp only: simp_thms)
      with True show ?thesis by (simp only: simp_thms)
    next
      case False
      show ?thesis
      proof (cases s)
        case Nil
        with False show ?thesis by (simp only: glob_match_literal_Nil simp_thms)
      next
        case s: (Cons d s')
        have ns: "c \<notin> set s'" and dc: "d \<noteq> c" using Cons.prems(4) s by auto
        from s have len: "length s' < length s" by simp
        have "\<not> (d = x \<and> glob_match p s')"
        proof (cases "x = c")
          case True
          with dc show ?thesis by simp
        next
          case xc: False
          with Cons.prems(2) have cp: "c \<in> set p" by simp
          from outer(1) len pl cp Cons.prems(3) ns have "\<not> glob_match p s'" by blast
          then show ?thesis by simp
        qed
        then show ?thesis by (simp only: s glob_match_literal[OF False lit] simp_thms)
      qed
    qed
  qed
qed

lemma map_of_filter_keys:
  "k \<notin> set keys \<Longrightarrow> map_of (filter (\<lambda>e. fst e \<notin> set keys) ks) k = map_of ks k"
  by (induction ks) auto

lemma redis_delete_keeps:
  "k \<notin> set keys \<Longrightarrow> map_of (keyspace (redis_delete srv keys)) k = map_of (keyspace srv) k"
  by (simp add: redis_delete_def map_of_filter_keys)

lemma redis_delete_reachable: "reachable (redis_delete srv keys) = reachable srv"
  by (simp add: redis_delete_def)

lemma scan_delete_loop_unfold:
  "scan_delete_loop u pat srv n =
     (if drop 100 u = []
      then (if filter (glob_match pat) (take 100 u) \<noteq> []
            then redis_delete srv (filter (glob_match pat) (take 100 u)) else srv,
            if filter (glob_match pat) (take 100 u) \<noteq> []
            then n + length (filter (glob_match pat) (take 100 u)) else n)
      else scan_delete_loop (drop 100 u) pat
             (if filter (glob_match pat) (take 100 u) \<noteq> []
              then redis_delete srv (filter (glob_match pat) (take 100 u)) else srv)
             (if filter (glob_match pat) (take 100 u) \<noteq> []
              then n + length (filter (glob_match pat) (take 100 u)) else n))"
  by (subst scan_delete_loop.simps) (simp only: Let_def)

lemma scan_delete_loop_reachable:
  "reachable (fst (scan_delete_loop u pat srv n)) = reachable srv"
proof (induction u pat srv n rule: scan_delete_loop.induct)
  case (1 u pat srv n)
  let ?keys = "filter (glob_match pat) (take 100 u)"
  let ?srv1 = "if ?keys \<noteq> [] then redis_delete srv ?keys else srv"
  let ?n1 = "if ?keys \<noteq> [] then n + length ?keys else n"
  have s1: "reachable ?srv1 = reachable srv" by (simp add: redis_delete_reachable)
  show ?case
  proof (cases "drop 100 u = []")
    case True
    have "scan_delete_loop u pat srv n = (?srv1, ?n1)"
      by (subst scan_delete_loop_unfold) (simp only: True simp_thms if_True)
    then show ?thesis by (simp only: fst_conv s1)
  next
    case False
    have e: "scan_delete_loop u pat srv n = scan_delete_loop (drop 100 u) pat ?srv1 ?n1"
      by (subst scan_delete_loop_unfold) (simp only: False simp_thms if_False)
    have "reachable (fst (scan_delete_loop (drop 100 u) pat ?srv1 ?n1)) = reachable ?srv1"
      by (rule 1[OF refl refl refl refl False])
    then show ?thesis by (simp only: e s1)
  qed
qed

lemma scan_delete_loop_keeps:
  "\<not> glob_match pat k \<Longrightarrow>
   map_of (keyspace (fst (scan_delete_loop u pat srv n))) k = map_of (keyspace srv) k"
proof (induction u pat srv n rule: scan_delete_loop.induct)
  case (1 u pat srv n)
  let ?keys = "filter (glob_match pat) (take 100 u)"
  let ?srv1 = "if ?keys \<noteq> [] then redis_delete srv ?keys else srv"
  let ?n1 = "if ?keys \<noteq> [] then n + length ?keys else n"
  have k: "k \<notin> set ?keys" using 1(2) by simp
  have s1: "map_of (keyspace ?srv1) k = map_of (keyspace srv) k"
    by (simp add: redis_delete_keeps[OF k])
  show ?case
  proof (cases "drop 100 u = []")
    case True
    have "scan_delete_loop u pat srv n = (?srv1, ?n1)"
      by (subst scan_delete_loop_unfold) (simp only: True simp_thms if_True)
    then show ?thesis by (simp only: fst_conv s1)
  next
    case False
    have e: "scan_delete_loop u pat srv n = scan_delete_loop (drop 100 u) pat ?srv1 ?n1"
      by (subst scan_delete_loop_unfold) (simp only: False simp_thms if_False)
    have "map_of (keyspace (fst (scan_delete_loop (drop 100 u) pat ?srv1 ?n1))) k =
          map_of (keyspace ?srv1) k"
      by (rule 1(1)[OF refl refl refl refl False 1(2)])
    then show ?thesis by (simp only: e s1)
  qed
qed

lemma cache_key_not_matched:
  assumes "\<forall>x \<in> set content_id. x \<noteq> CHR ''?'' \<and> x \<noteq> CHR ''['' \<and> x \<noteq> CHR 0x5C"
    and "c \<in> set content_id" and "c \<noteq> CHR ''*''" and "c \<notin> set hexdigits"
  shows "\<not> glob_match (''chembot:qa:*'' @ content_id @ ''*'') (generate_cache_key q content_id kw)"
proof -
  let ?h = "sha256_hexdigest (cache_string q content_id kw)"
  let ?p = "CHR ''*'' # content_id @ ''*''"
  have pl: "\<forall>x \<in> set ?p. x \<noteq> CHR ''?'' \<and> x \<noteq> CHR ''['' \<and> x \<noteq> CHR 0x5C"
    using assms(1) by simp
  have cp: "c \<in> set ?p" using assms(2) by simp
  have ch: "c \<notin> set ?h" using assms(4) sha256_hexdigest_chars by blast
  have n: "\<not> glob_match ?p ?h" by (rule glob_match_missing_char[OF pl cp assms(3) ch])
  have pre: "\<forall>x \<in> set ''chembot:qa:''.
      x \<noteq> CHR ''*'' \<and> x \<noteq> CHR ''?'' \<and> x \<noteq> CHR ''['' \<and> x \<noteq> CHR 0x5C"
    by simp
  have "glob_match (''chembot:qa:'' @ ?p) (''chembot:qa:'' @ ?h) = glob_match ?p ?h"
    by (rule glob_match_prefix[OF pre])
  then have "glob_match (''chembot:qa:'' @ ?p) (''chembot:qa:'' @ ?h) = False"
    using n by (simp only:)
  then have "\<not> glob_match (''chembot:qa:'' @ ?p) (''chembot:qa:'' @ ?h)" by (simp only: simp_thms)
  then show ?thesis by (simp add: generate_cache_key_def del: glob_match.simps)
qed

subsection \<open>Invalidation of a content's cached answers\<close>

text \<open>
  Claim C1 says that after \<open>cache_answer(q, ns, r)\<close> a call of
  \<open>invalidate_content_cache(ns)\<close> removes the entry, so that \<open>get_cached_answer(q, ns)\<close>
  returns \<open>None\<close>. The code scans for the pattern \<open>chembot:qa:*{content_id}*\<close>, while the
  keys are \<open>chembot:qa:\<close> followed by the SHA-256 hex digest of a string that contains
  the content id: the id itself is not part of any key. Whenever the content id has a
  character that is no hexadecimal digit (and no character that is special in a glob
  pattern), the pattern matches no key of the cache, the entry stays, and the lookup
  after the invalidation still returns the cached payload.
\<close>

theorem invalidate_content_cache_keeps_entry:
  assumes "reachable srv"
    and "\<forall>x \<in> set content_id. x \<noteq> CHR ''?'' \<and> x \<noteq> CHR ''['' \<and> x \<noteq> CHR 0x5C"
    and "c \<in> set content_id" and "c \<noteq> CHR ''*''" and "c \<notin> set hexdigits"
  shows "fst (get_cached_answer q content_id kw
           (invalidate_content_cache content_id
             (cache_answer q content_id r kw (RedisCacheManager True srv)))) =
         Some (AList.update ''cache_key'' (PStr (generate_cache_key q content_id kw))
                (AList.update ''cached'' (PBool True) r))"
proof -
  let ?key = "generate_cache_key q content_id kw"
  let ?data = "AList.update ''cache_key'' (PStr ?key) (AList.update ''cached'' (PBool True) r)"
  let ?pat = "''chembot:qa:*'' @ content_id @ ''*''"
  let ?m0 = "RedisCacheManager True srv"
  let ?srv1 = "srv\<lparr>keyspace := AList.update ?key (?data, REDIS_CACHE_TTL) (keyspace srv)\<rparr>"
  let ?m2 = "?m0\<lparr>initialized := True, client := Some ?srv1\<rparr>"
  let ?srv3 = "fst (scan_delete_loop (map fst (keyspace ?srv1)) ?pat ?srv1 0)"
  let ?m3 = "?m2\<lparr>client := Some ?srv3\<rparr>"
  have nm: "\<not> glob_match ?pat ?key"
    by (rule cache_key_not_matched[OF assms(2,3,4,5)])
  have c: "cache_answer q content_id r kw ?m0 = ?m2"
    using assms(1)
    by (simp add: cache_answer_def RedisCacheManager_def ensure_initialized_def
        redis_setex_def Let_def)
  have i: "invalidate_content_cache content_id ?m2 = ?m3"
    using assms(1)
    by (simp add: invalidate_content_cache_def RedisCacheManager_def Let_def
        del: scan_delete_loop.simps)
  have r3: "reachable ?srv3" using assms(1) by (simp only: scan_delete_loop_reachable) simp
  have k3: "map_of (keyspace ?srv3) ?key = Some (?data, REDIS_CACHE_TTL)"
    by (simp only: scan_delete_loop_keeps[OF nm]) (simp add: update_conv')
  have g: "fst (get_cached_answer q content_id kw ?m3) = Some ?data"
    using r3 k3
    by (simp add: get_cached_answer_def RedisCacheManager_def ensure_initialized_def
        redis_get_def Let_def del: scan_delete_loop.simps)
  show ?thesis by (simp only: c i g)
qed

theorem invalidate_content_cache_keeps_entry_witness:
  "fst (get_cached_answer ''What is X?'' ''doc1'' []
          (invalidate_content_cache ''doc1''
            (cache_answer ''What is X?'' ''doc1'' [(''answer'', PStr ''X is a compound.'')] []
              (RedisCacheManager True \<lparr>reachable = True, keyspace = []\<rparr>)))) \<noteq> None"
  using invalidate_content_cache_keeps_entry
    [of "\<lparr>reachable = True, keyspace = []\<rparr>" "''doc1''" "CHR ''o''" "''What is X?''" "[]"
        "[(''answer'', PStr ''X is a compound.'')]"]
  by (simp add: hexdigits_def del: scan_delete_loop.simps glob_match.simps)

subsection \<open>Chunking\<close>

text \<open>
  Claim C7 says that in the output of the heuristic strategy the overlap-bounded tail
  of every chunk but the last is the head of the next chunk. With \<open>chunk_size = 3\<close> and
  \<open>overlap = 2\<close>, the text below has the paragraph \<open>a b\<close> and then a paragraph of six
  words. The first chunk is \<open>a b\<close>, and its overlap text \<open>a b\<close> is kept as the seed of the
  next chunk. The second paragraph is too long, so it goes to \<open>_chunk_by_sentences\<close>,
  whose chunks are appended without the seed; the seed stays in \<open>current_chunk\<close> and is
  emitted after them, as a chunk of its own. So the chunk after \<open>a b\<close> starts with
  \<open>c d.\<close>, and the last chunk repeats \<open>a b\<close> behind the text that followed it.
\<close>

theorem heuristic_chunk_overlap_seed_displaced:
  "map chunk_text
     (heuristic_chunk 3 2 (''a b'' @ [CHR 0x0A, CHR 0x0A] @ ''c d. e f. g h.'') None) =
     [''a b'', ''c d.'', ''c d. e f.'', ''e f. g h.'', ''a b''] \<and>
   get_overlap_text 2 [''a b''] = ''a b'' \<and>
   \<not> startswith ''c d.'' ''a b''"
  by code_simp

text \<open>
  Claim C2 says that the \<open>chunk_index\<close> values of every strategy are 0, 1, 2, ... in
  document order. The semantic strategy appends the chunks of its heuristic delegation as
  they are, with the indices the heuristic chunker counted from 0: for a section of three
  words followed by a section of six words and \<open>chunk_size = 3\<close>, the indices are 0, 0, 1.
  In the intelligent strategy, the chunk that \<open>_llm_split_chunk\<close> returns when no segment
  of the response is kept has no \<open>chunk_index\<close> at all.
\<close>

theorem semantic_chunk_indices_restart:
  "chunk_indices
     (semantic_chunk 3 0
        (''# A'' @ [CHR 0x0A] @ ''x'' @ [CHR 0x0A] @ ''# B'' @ [CHR 0x0A] @ ''c d. e f.'') None) =
     [Some (PInt 0), Some (PInt 0), Some (PInt 1)] \<and>
   map chunk_text
     (semantic_chunk 3 0
        (''# A'' @ [CHR 0x0A] @ ''x'' @ [CHR 0x0A] @ ''# B'' @ [CHR 0x0A] @ ''c d. e f.'') None) =
     [''# A'' @ [CHR 0x0A] @ ''x'', ''# B'' @ [CHR 0x0A] @ ''c d.'', ''e f.''] \<and>
   chunk_indices
     (intelligent_chunk 3 0 ''gpt'' (\<lambda>req. Returns (Some '''')) ''a b c d e f'' None) = [None]"
  by code_simp

lemma chunk_text_Chunk: "chunk_text (Chunk t metadata) = t"
  by (simp add: Chunk_def)

lemma split_Nil: "split [] = []"
  by (simp add: split_def)

lemma llm_sections_texts:
  "map chunk_text (llm_sections llm_model metadata base_index i secs) =
     filter (\<lambda>s. 50 < word_count_of s) (map strip secs)"
proof (induction secs arbitrary: i)
  case Nil
  show ?case by simp
next
  case (Cons sec secs)
  show ?case
  proof (cases "strip sec = []")
    case True
    then show ?thesis
      by (simp add: Let_def Cons word_count_of_def split_Nil)
  next
    case False
    then show ?thesis
      by (simp add: Let_def Cons word_count_of_def chunk_text_Chunk)
  qed
qed

text \<open>
  C8 (as amended). When the provider answers with a text, the sub-chunks of
  \<open>_llm_split_chunk\<close> are the stripped segments between the \<open>---SPLIT---\<close> markers that
  have more than 50 words, in order; a segment of 50 words or fewer is discarded. When
  no segment is kept, the result is the one chunk of the whole input text.
\<close>

theorem llm_split_chunk_segments:
  assumes "acompletion
             \<lparr> request_model = llm_model, request_prompt = split_prompt chunk_size t,
               request_temperature = 0.3, request_max_tokens = length (split t) + 200 \<rparr>
           = Returns (Some split_text)"
  shows "map chunk_text
           (llm_split_chunk chunk_size overlap llm_model acompletion t metadata base_index) =
         (let kept = filter (\<lambda>s. 50 < word_count_of s)
                       (map strip (str_split ''---SPLIT---'' [] split_text))
          in if kept = [] then [t] else kept)"
proof -
  let ?secs = "str_split ''---SPLIT---'' [] split_text"
  let ?chunks = "llm_sections llm_model metadata base_index 0 ?secs"
  have e: "llm_split_chunk chunk_size overlap llm_model acompletion t metadata base_index =
      (if ?chunks \<noteq> [] then ?chunks else [Chunk t metadata])"
    by (simp add: llm_split_chunk_def assms Let_def del: str_split.simps)
  have k: "map chunk_text ?chunks =
      filter (\<lambda>s. 50 < word_count_of s) (map strip ?secs)"
    by (rule llm_sections_texts)
  have n: "(?chunks = []) = (filter (\<lambda>s. 50 < word_count_of s) (map strip ?secs) = [])"
    using k by (metis map_is_Nil_conv)
  show ?thesis
  proof (cases "?chunks = []")
    case True
    with n have "filter (\<lambda>s. 50 < word_count_of s) (map strip ?secs) = []" by blast
    with True show ?thesis
      by (simp only: e Let_def chunk_text_Chunk list.map if_True simp_thms if_False)
  next
    case False
    with n have "filter (\<lambda>s. 50 < word_count_of s) (map strip ?secs) \<noteq> []" by blast
    with False show ?thesis by (simp only: e Let_def k if_True if_False simp_thms)
  qed
qed

theorem llm_split_chunk_segments_witness:
  "map chunk_text
     (llm_split_chunk 60 0 ''gpt''
        (\<lambda>req. Returns (Some (concat (replicate 52 ''u '') @ ''---SPLIT---'' @ ''short'')))
        (concat (replicate 101 ''x '')) None 0) =
   [strip (concat (replicate 52 ''u ''))]"
proof -
  have "map chunk_text
     (llm_split_chunk 60 0 ''gpt''
        (\<lambda>req. Returns (Some (concat (replicate 52 ''u '') @ ''---SPLIT---'' @ ''short'')))
        (concat (replicate 101 ''x '')) None 0) =
    (let kept = filter (\<lambda>s. 50 < word_count_of s)
                  (map strip (str_split ''---SPLIT---'' []
                     (concat (replicate 52 ''u '') @ ''---SPLIT---'' @ ''short'')))
     in if kept = [] then [concat (replicate 101 ''x '')] else kept)"
    by (rule llm_split_chunk_segments) (rule refl)
  also have "\<dots> = [strip (concat (replicate 52 ''u ''))]"
    by code_simp
  finally show ?thesis .
qed

text \<open>
  C8 as stated fails: a segment of exactly 50 words is not kept. The response below has
  a segment of 50 words and a segment of 51 words; only the second becomes a sub-chunk.
\<close>

theorem llm_split_chunk_segments_counterexample:
  "word_count_of (strip (concat (replicate 50 ''w ''))) = 50 \<and>
   word_count_of (strip (concat (replicate 51 ''v ''))) = 51 \<and>
   map chunk_text
     (llm_split_chunk 60 0 ''gpt''
        (\<lambda>req. Returns (Some
           (concat (replicate 50 ''w '') @ ''---SPLIT---'' @ concat (replicate 51 ''v ''))))
        (concat (replicate 101 ''x '')) None 0) =
   [strip (concat (replicate 51 ''v ''))]"
  by code_simp

subsection \<open>The cache key\<close>






text \<open>\<open>json.dumps\<close> writes different values differently.\<close>

declare dec_nat.simps [simp del]




































subsection \<open>Provider call sites\<close>

lemma call_provider_calls:
  "calls (snd (call_provider f req w)) = calls w + 1"
  by (simp add: call_provider_def split: prod.splits)

text \<open>Inside \<open>execute_with_retry\<close>, every invocation of the provider is one await of the
  loop.\<close>

lemma attempt_loop_calls:
  "\<exists>n. invocations (snd (attempt_loop (call_provider f req) attempts le r)) = invocations r + n \<and>
       calls (func_state (snd (attempt_loop (call_provider f req) attempts le r)))
         = calls (func_state r) + n"
proof (induction attempts arbitrary: le r)
  case Nil
  show ?case by (rule exI[of _ 0]) (simp split: option.splits)
next
  case (Cons a attempts)
  let ?F = "call_provider f req"
  obtain out w where cp: "?F (func_state r) = (out, w)" by (cases "?F (func_state r)")
  have cw: "calls w = calls (func_state r) + 1"
    using call_provider_calls[of f req "func_state r"] by (simp add: cp)
  define r1 where "r1 = r\<lparr>func_state := w, invocations := invocations r + 1\<rparr>"
  have r1: "invocations r1 = invocations r + 1" "calls (func_state r1) = calls (func_state r) + 1"
    "limiter r1 = limiter r"
    by (simp_all add: r1_def cw)
  have cont: "\<exists>n. invocations (snd (attempt_loop ?F attempts le' (sleep d r1))) = invocations r + n \<and>
       calls (func_state (snd (attempt_loop ?F attempts le' (sleep d r1))))
         = calls (func_state r) + n" for le' d
  proof -
    from Cons.IH[of le' "sleep d r1"] obtain n where
      "invocations (snd (attempt_loop ?F attempts le' (sleep d r1))) = invocations (sleep d r1) + n"
      "calls (func_state (snd (attempt_loop ?F attempts le' (sleep d r1))))
         = calls (func_state (sleep d r1)) + n" by blast
    then have
      "invocations (snd (attempt_loop ?F attempts le' (sleep d r1))) = invocations r + (n + 1) \<and>
       calls (func_state (snd (attempt_loop ?F attempts le' (sleep d r1))))
         = calls (func_state r) + (n + 1)"
      by (simp add: r1)
    then show ?thesis by blast
  qed
  have stop: "\<exists>n. invocations r1 = invocations r + n \<and>
       calls (func_state r1) = calls (func_state r) + n"
    by (rule exI[of _ 1]) (simp add: r1)
  have e: "attempt_loop ?F (a # attempts) le r =
      (case out of
         Returns v \<Rightarrow> (Inr v, count_success a r1)
       | Raises (RateLimitError m) \<Rightarrow>
           if int a < max_retries (limiter r1)
           then attempt_loop ?F attempts (Some (RateLimitError m))
                  (sleep (backoff_delay (limiter r1) a) r1)
           else (Inl (RateLimitError m), count_failed r1)
       | Raises (APIError m) \<Rightarrow>
           if int a < max_retries (limiter r1) \<and> is_retryable_error m
           then attempt_loop ?F attempts (Some (APIError m))
                  (sleep (backoff_delay (limiter r1) a) r1)
           else (Inl (APIError m), count_failed r1)
       | Raises (OtherError m) \<Rightarrow> (Inl (OtherError m), count_failed r1))"
    by (simp add: cp r1_def Let_def split: outcome.split exn.split)
  show ?case
  proof (cases out)
    case (Returns v)
    with stop show ?thesis unfolding e by simp
  next
    case (Raises ex)
    show ?thesis
    proof (cases ex)
      case (RateLimitError m)
      with Raises stop cont show ?thesis unfolding e by simp
    next
      case (APIError m)
      with Raises stop cont show ?thesis unfolding e by simp
    next
      case (OtherError m)
      with Raises stop show ?thesis unfolding e by simp
    qed
  qed
qed

lemma execute_with_retry_calls:
  "\<exists>n. invocations (snd (execute_with_retry (call_provider f req) r)) = invocations r + n \<and>
       calls (func_state (snd (execute_with_retry (call_provider f req) r)))
         = calls (func_state r) + n"
  using attempt_loop_calls[of f req "[0..<nat (max_retries (limiter r) + 1)]" None
      "r\<lparr>limiter := (limiter r)\<lparr>total_requests := total_requests (limiter r) + 1\<rparr>\<rparr>"]
  by (simp add: execute_with_retry_def)

lemma generate_embedding_calls:
  "calls (func_state (snd (generate_embedding llm embedding_model t r))) = calls (func_state r) + 1 \<and>
   invocations (snd (generate_embedding llm embedding_model t r)) = invocations r \<and>
   limiter (snd (generate_embedding llm embedding_model t r)) = limiter r"
proof -
  obtain out w where cp:
    "call_provider (llm_aembedding llm) (embedding_model, t) (func_state r) = (out, w)"
    by (cases "call_provider (llm_aembedding llm) (embedding_model, t) (func_state r)")
  have cw: "calls w = calls (func_state r) + 1"
    using call_provider_calls[of "llm_aembedding llm" "(embedding_model, t)" "func_state r"]
    by (simp add: cp)
  show ?thesis
    by (simp add: generate_embedding_def cp cw split: outcome.splits list.splits)
qed

lemma search_similar_calls:
  "calls (func_state (snd (search_similar llm embedding_model store_query query content_id top_k r)))
     = calls (func_state r) + 1 \<and>
   invocations (snd (search_similar llm embedding_model store_query query content_id top_k r))
     = invocations r \<and>
   limiter (snd (search_similar llm embedding_model store_query query content_id top_k r))
     = limiter r"
proof -
  obtain res r1 where g: "generate_embedding llm embedding_model query r = (res, r1)"
    by (cases "generate_embedding llm embedding_model query r")
  have "calls (func_state r1) = calls (func_state r) + 1 \<and> invocations r1 = invocations r \<and>
      limiter r1 = limiter r"
    using generate_embedding_calls[of llm embedding_model query r] by (simp add: g)
  then show ?thesis
    by (simp add: search_similar_def g split: sum.splits outcome.splits)
qed

lemma classify_query_calls:
  "calls (func_state (snd (classify_query qc llm query r))) =
     calls (func_state r) +
       (case (qc_enabled qc, qc_user_prompt qc query) of (True, Returns p) \<Rightarrow> 1 | _ \<Rightarrow> 0) \<and>
   invocations (snd (classify_query qc llm query r)) = invocations r \<and>
   limiter (snd (classify_query qc llm query r)) = limiter r"
proof (cases "qc_enabled qc")
  case False
  then show ?thesis by (simp add: classify_query_def)
next
  case True
  show ?thesis
  proof (cases "qc_user_prompt qc query")
    case (Raises e)
    with True show ?thesis by (simp add: classify_query_def)
  next
    case (Returns user_prompt)
    let ?req = "\<lparr> req_model = qc_model qc,
        req_messages = [(''system'', qc_system_prompt qc), (''user'', user_prompt)],
        req_temperature = 0.3, req_max_tokens = 200, req_stream = False \<rparr>"
    obtain out w where cp: "call_provider (llm_acompletion llm) ?req (func_state r) = (out, w)"
      by (cases "call_provider (llm_acompletion llm) ?req (func_state r)")
    have cw: "calls w = calls (func_state r) + 1"
      using call_provider_calls[of "llm_acompletion llm" ?req "func_state r"]
      by (simp add: cp)
    from True Returns show ?thesis
      by (simp add: classify_query_def cp cw
          split: outcome.splits list.splits option.splits)
  qed
qed

lemma generate_answer_calls:
  "\<exists>n. invocations (snd (generate_answer qe llm question context r)) = invocations r + n \<and>
       calls (func_state (snd (generate_answer qe llm question context r)))
         = calls (func_state r) + n"
proof (cases "qe_user_prompt qe context question")
  case (Raises e)
  then have "snd (generate_answer qe llm question context r) = r"
    by (simp add: generate_answer_def)
  then show ?thesis by simp
next
  case (Returns user_prompt)
  let ?F = "call_provider (llm_acompletion llm) (generation_request qe user_prompt False)"
  have "snd (generate_answer qe llm question context r) = snd (execute_with_retry ?F r)"
    using Returns
    by (simp add: generate_answer_def split: prod.splits sum.splits list.splits)
  then show ?thesis
    using execute_with_retry_calls[of "llm_acompletion llm"
        "generation_request qe user_prompt False" r]
    by simp
qed

lemma answer_question_stream_calls:
  "\<exists>n. invocations (snd (answer_question_stream qe llm question content_id top_k r))
         = invocations r + n \<and>
       calls (func_state (snd (answer_question_stream qe llm question content_id top_k r)))
         = calls (func_state r) + 1 + n"
proof -
  obtain res r1 where s:
    "search_similar llm (qe_embedding_model qe) (qe_store_query qe) question content_id top_k r
       = (res, r1)"
    by (cases "search_similar llm (qe_embedding_model qe) (qe_store_query qe)
                 question content_id top_k r")
  have r1: "calls (func_state r1) = calls (func_state r) + 1" "invocations r1 = invocations r"
    using search_similar_calls[of llm "qe_embedding_model qe" "qe_store_query qe"
        question content_id top_k r]
    by (simp_all add: s)
  have zero: "\<exists>n. invocations r1 = invocations r + n \<and>
      calls (func_state r1) = calls (func_state r) + 1 + n"
    by (rule exI[of _ 0]) (simp add: r1)
  have exec: "\<exists>n. invocations (snd (execute_with_retry
          (call_provider (llm_acompletion_stream llm) (generation_request qe up True)) r1))
        = invocations r + n \<and>
      calls (func_state (snd (execute_with_retry
          (call_provider (llm_acompletion_stream llm) (generation_request qe up True)) r1)))
        = calls (func_state r) + 1 + n" for up
    using execute_with_retry_calls[of "llm_acompletion_stream llm"
        "generation_request qe up True" r1]
    by (simp add: r1)
  show ?thesis
  proof (cases res)
    case (Inl e)
    with zero show ?thesis by (simp add: answer_question_stream_def s)
  next
    case (Inr relevant_chunks)
    show ?thesis
    proof (cases "relevant_chunks = []")
      case True
      with Inr zero show ?thesis by (simp add: answer_question_stream_def s)
    next
      case False
      show ?thesis
      proof (cases "qe_prepare_context qe relevant_chunks")
        case (Raises e)
        with Inr False zero show ?thesis by (simp add: answer_question_stream_def s)
      next
        case c: (Returns ctx)
        show ?thesis
        proof (cases "qe_user_prompt qe ctx question")
          case (Raises e)
          with Inr False c zero show ?thesis by (simp add: answer_question_stream_def s)
        next
          case (Returns up)
          have "snd (answer_question_stream qe llm question content_id top_k r) =
              snd (execute_with_retry
                (call_provider (llm_acompletion_stream llm) (generation_request qe up True)) r1)"
            using Inr False c Returns
            by (simp add: answer_question_stream_def s split: prod.splits sum.splits)
          with exec[of up] show ?thesis by simp
        qed
      qed
    qed
  qed
qed
text \<open>
  C3 (as amended). \<open>calls\<close> counts the invocations of the provider, \<open>invocations\<close> the
  awaits of the wrapped operation inside \<open>execute_with_retry\<close>. In \<open>_generate_answer\<close>
  every invocation of the provider is an await of the executor. In
  \<open>answer_question_stream\<close> this holds for the completion, and there is exactly one more
  invocation: the embedding of the query text in \<open>search_similar\<close>. \<open>generate_embedding\<close>
  invokes the provider once and never enters the executor, and so does \<open>classify_query\<close>
  when the classifier is enabled and its prompt could be formatted: the limiter and the
  count of awaits are unchanged.
\<close>

theorem provider_call_sites:
  "(\<exists>n. invocations (snd (generate_answer qe llm question ctx r)) = invocations r + n \<and>
        calls (func_state (snd (generate_answer qe llm question ctx r)))
          = calls (func_state r) + n) \<and>
   (\<exists>n. invocations (snd (answer_question_stream qe llm question content_id top_k r))
          = invocations r + n \<and>
        calls (func_state (snd (answer_question_stream qe llm question content_id top_k r)))
          = calls (func_state r) + 1 + n) \<and>
   (calls (func_state (snd (generate_embedding llm embedding_model t r))) = calls (func_state r) + 1 \<and>
    invocations (snd (generate_embedding llm embedding_model t r)) = invocations r \<and>
    limiter (snd (generate_embedding llm embedding_model t r)) = limiter r) \<and>
   (calls (func_state (snd (classify_query qc llm query r))) =
      calls (func_state r) +
        (case (qc_enabled qc, qc_user_prompt qc query) of (True, Returns p) \<Rightarrow> 1 | _ \<Rightarrow> 0) \<and>
    invocations (snd (classify_query qc llm query r)) = invocations r \<and>
    limiter (snd (classify_query qc llm query r)) = limiter r)"
  using generate_answer_calls answer_question_stream_calls generate_embedding_calls
    classify_query_calls
  by blast

text \<open>
  C3 as stated fails: from a fresh limiter and a provider that has not been invoked, one
  \<open>classify_query\<close> and one \<open>generate_embedding\<close> invoke the provider twice, while
  \<open>execute_with_retry\<close> has not been entered: no request is counted and nothing was
  awaited by the executor.
\<close>

theorem provider_call_outside_executor:
  "let llm = \<lparr> llm_acompletion =
                  (\<lambda>req (p::unit). (Returns \<lparr> choices = [Some ''{}''], total_tokens = None \<rparr>, p)),
                llm_acompletion_stream =
                  (\<lambda>req p. (Returns \<lparr> deltas = [], stream_error = None \<rparr>, p)),
                llm_aembedding = (\<lambda>inp p. (Returns [[0.5]], p)) \<rparr>;
       qc = \<lparr> qc_model = ''gpt-4o-mini'', qc_enabled = True, qc_system_prompt = ''classify'',
              qc_user_prompt = (\<lambda>q. Returns q), qc_json_loads = (\<lambda>s. Some (PDict [])) \<rparr>;
       r0 = start_run (RateLimiter None None None None) \<lparr> calls = 0, provider_state = () \<rparr>;
       r1 = snd (classify_query qc llm ''What is X?'' r0);
       r2 = snd (generate_embedding llm ''text-embedding-3-small'' ''What is X?'' r1)
   in calls (func_state r2) = 2 \<and> invocations r2 = 0 \<and> total_requests (limiter r2) = 0"
  by (simp add: Let_def classify_query_def generate_embedding_def call_provider_def
      start_run_def RateLimiter_def)

subsection \<open>Streaming answers\<close>










end
